theory Spec2Isabelle
  imports Complex_Main
begin

section \<open>JavaScript values\<close>

text \<open>
  The data layer works on untyped payloads (\<^verbatim>\<open>any\<close>, \<^verbatim>\<open>unknown\<close>), so the model has one type
  of JavaScript values. Numbers are extended rationals: \<open>NaN\<close>, the two infinities and
  the finite values with exact arithmetic; the rounding of binary64 and the sign of
  zero are not represented. An object is the list of its own properties in insertion
  order, and the first binding of a name is the property.
\<close>

datatype jsnum = NaN | PosInf | NegInf | Fin rat

datatype jsval =
    JUndefined
  | JNull
  | JBool bool
  | JNum jsnum
  | JStr string
  | JArr "jsval list"
  | JObj "(string \<times> jsval) list"

datatype js_error = TypeError

fun nullish :: "jsval \<Rightarrow> bool" where
  "nullish JUndefined = True"
| "nullish JNull = True"
| "nullish _ = False"

text \<open>\<^verbatim>\<open>ToBoolean\<close>: what \<^verbatim>\<open>if\<close>, \<^verbatim>\<open>&&\<close>, \<^verbatim>\<open>||\<close>, \<^verbatim>\<open>!\<close> and \<^verbatim>\<open>?:\<close> test.\<close>

fun truthy :: "jsval \<Rightarrow> bool" where
  "truthy JUndefined = False"
| "truthy JNull = False"
| "truthy (JBool b) = b"
| "truthy (JNum n) = (n \<noteq> NaN \<and> n \<noteq> Fin 0)"
| "truthy (JStr s) = (s \<noteq> [])"
| "truthy (JArr xs) = True"
| "truthy (JObj kvs) = True"

text \<open>\<^verbatim>\<open>a || b\<close>\<close>

definition js_or :: "jsval \<Rightarrow> jsval \<Rightarrow> jsval" where
  "js_or a b = (if truthy a then a else b)"

text \<open>
  \<^verbatim>\<open>o.k\<close> on a receiver that is neither \<^verbatim>\<open>null\<close> nor \<^verbatim>\<open>undefined\<close> (on those the read
  throws a \<^verbatim>\<open>TypeError\<close>, which every caller below writes out). The names read in this
  program are names of payload fields; none of them is a property of the prototypes of
  booleans, numbers, strings or arrays, so only an object can have them.
\<close>

fun field :: "jsval \<Rightarrow> string \<Rightarrow> jsval" where
  "field (JObj kvs) k = (case map_of kvs k of Some v \<Rightarrow> v | None \<Rightarrow> JUndefined)"
| "field _ k = JUndefined"

text \<open>\<^verbatim>\<open>k in o\<close> for an object or array \<open>o\<close> and a payload field name \<open>k\<close>.\<close>

fun has_prop :: "jsval \<Rightarrow> string \<Rightarrow> bool" where
  "has_prop (JObj kvs) k = (map_of kvs k \<noteq> None)"
| "has_prop _ k = False"

text \<open>\<^verbatim>\<open>typeof v === 'object'\<close>\<close>

fun typeof_object :: "jsval \<Rightarrow> bool" where
  "typeof_object JNull = True"
| "typeof_object (JArr xs) = True"
| "typeof_object (JObj kvs) = True"
| "typeof_object _ = False"

text \<open>\<^verbatim>\<open>Array.isArray(v)\<close>, and the elements of an array.\<close>

fun isArray :: "jsval \<Rightarrow> bool" where
  "isArray (JArr xs) = True"
| "isArray _ = False"

fun elements :: "jsval \<Rightarrow> jsval list" where
  "elements (JArr xs) = xs"
| "elements _ = []"

text \<open>
  Writing a key of an insertion-ordered map: an existing key keeps its place, a new key
  goes last. Objects are such maps (\<^verbatim>\<open>{...o, k: v}\<close> and \<^verbatim>\<open>o[k] = v\<close>), and so is the query
  cache below.
\<close>

fun assign :: "('k \<times> 'v) list \<Rightarrow> 'k \<Rightarrow> 'v \<Rightarrow> ('k \<times> 'v) list" where
  "assign [] k v = [(k, v)]"
| "assign ((k', v') # kvs) k v = (if k' = k then (k, v) # kvs else (k', v') # assign kvs k v)"

subsection \<open>Numbers and strings\<close>

fun join :: "string \<Rightarrow> string list \<Rightarrow> string" where
  "join sep [] = []"
| "join sep [s] = s"
| "join sep (s # t # ss) = s @ sep @ join sep (t # ss)"

definition digit_char :: "nat \<Rightarrow> char" where
  "digit_char d = char_of (48 + d)"

fun nat_to_string :: "nat \<Rightarrow> string" where
  "nat_to_string n =
     (if n < 10 then [digit_char n] else nat_to_string (n div 10) @ [digit_char (n mod 10)])"

text \<open>
  The own enumerable properties that \<^verbatim>\<open>{...v}\<close> copies: those of an object, the elements
  of an array and the characters of a string under their indices, and nothing for any
  other value.
\<close>

fun spread :: "jsval \<Rightarrow> (string \<times> jsval) list" where
  "spread (JObj kvs) = kvs"
| "spread (JArr xs) = zip (map nat_to_string [0..<length xs]) xs"
| "spread (JStr s) = zip (map nat_to_string [0..<length s]) (map (\<lambda>c. JStr [c]) s)"
| "spread _ = []"

text \<open>
  The digits after the decimal point of \<open>n / d\<close> for \<open>n < d\<close>, by long division. The
  first argument bounds their number: a rational whose expansion does not end is cut
  there.
\<close>

fun fraction_digits :: "nat \<Rightarrow> nat \<Rightarrow> nat \<Rightarrow> string" where
  "fraction_digits 0 n d = []"
| "fraction_digits (Suc k) n d =
     (if n = 0 then []
      else digit_char ((10 * n) div d) # fraction_digits k ((10 * n) mod d) d)"

text \<open>
  \<^verbatim>\<open>Number.prototype.toString\<close>, in positional notation. It is the text JavaScript prints
  for the whole numbers below \<open>10\<^sup>2\<^sup>1\<close> and for short decimal fractions; the exponent
  notation of very large and very small numbers and the shortest round-trip digits of a
  binary64 are not modelled, and no property below depends on the digits of a number.
\<close>

definition rat_to_string :: "rat \<Rightarrow> string" where
  "rat_to_string r =
     (let a = \<bar>r\<bar>;
          w = nat \<lfloor>a\<rfloor>;
          (n, d) = quotient_of (a - of_nat w);
          f = fraction_digits 20 (nat n) (nat d)
      in (if r < 0 then ''-'' else []) @ nat_to_string w @ (if f = [] then [] else ''.'' @ f))"

fun num_to_string :: "jsnum \<Rightarrow> string" where
  "num_to_string NaN = ''NaN''"
| "num_to_string PosInf = ''Infinity''"
| "num_to_string NegInf = ''-Infinity''"
| "num_to_string (Fin r) = rat_to_string r"

text \<open>
  \<^verbatim>\<open>String(v)\<close>. An array is the join of its elements with commas, \<^verbatim>\<open>null\<close> and
  \<^verbatim>\<open>undefined\<close> elements giving the empty text; a plain object is \<^verbatim>\<open>[object Object]\<close>.
\<close>

fun js_String :: "jsval \<Rightarrow> string" where
  "js_String JUndefined = ''undefined''"
| "js_String JNull = ''null''"
| "js_String (JBool b) = (if b then ''true'' else ''false'')"
| "js_String (JNum n) = num_to_string n"
| "js_String (JStr s) = s"
| "js_String (JArr xs) = join '','' (map (\<lambda>x. if nullish x then [] else js_String x) xs)"
| "js_String (JObj kvs) = ''[object Object]''"

text \<open>
  \<^verbatim>\<open>StringToNumber\<close>: white space is trimmed; the empty text is 0; then a signed decimal
  literal with optional fraction and exponent, a signed \<^verbatim>\<open>Infinity\<close>, or an unsigned
  hexadecimal, octal or binary integer; anything else is \<open>NaN\<close>. A string is a list of
  bytes, and the white space is the ASCII one.
\<close>

definition is_space :: "char \<Rightarrow> bool" where
  "is_space c = (c \<in> set [CHR '' '', CHR 0x09, CHR 0x0A, CHR 0x0B, CHR 0x0C, CHR 0x0D])"

definition trim :: "string \<Rightarrow> string" where
  "trim s = rev (dropWhile is_space (rev (dropWhile is_space s)))"

definition digit_of :: "char \<Rightarrow> nat option" where
  "digit_of c =
     (let n = (of_char c :: nat) in
      if 48 \<le> n \<and> n \<le> 57 then Some (n - 48)
      else if 97 \<le> n \<and> n \<le> 102 then Some (n - 87)
      else if 65 \<le> n \<and> n \<le> 70 then Some (n - 55)
      else None)"

text \<open>The number a non-empty run of digits of the base writes.\<close>

fun digits_from :: "nat \<Rightarrow> nat \<Rightarrow> string \<Rightarrow> nat option" where
  "digits_from b acc [] = Some acc"
| "digits_from b acc (c # cs) =
     (case digit_of c of
        Some d \<Rightarrow> if d < b then digits_from b (acc * b + d) cs else None
      | None \<Rightarrow> None)"

definition digits :: "nat \<Rightarrow> string \<Rightarrow> nat option" where
  "digits b s = (if s = [] then None else digits_from b 0 s)"

text \<open>The text before the first character that satisfies \<open>P\<close>, and the text after it when there is one.\<close>

definition split_at :: "(char \<Rightarrow> bool) \<Rightarrow> string \<Rightarrow> string \<times> string option" where
  "split_at P s =
     (takeWhile (\<lambda>c. \<not> P c) s,
      case dropWhile (\<lambda>c. \<not> P c) s of [] \<Rightarrow> None | c # r \<Rightarrow> Some r)"

definition signed_digits :: "string \<Rightarrow> int option" where
  "signed_digits s =
     (case s of
        c # r \<Rightarrow>
          if c = CHR ''-'' then map_option (\<lambda>n. - int n) (digits 10 r)
          else if c = CHR ''+'' then map_option int (digits 10 r)
          else map_option int (digits 10 s)
      | [] \<Rightarrow> None)"

definition mantissa :: "string \<Rightarrow> rat option" where
  "mantissa m =
     (case split_at (\<lambda>c. c = CHR ''.'') m of
        (ip, None) \<Rightarrow> map_option of_nat (digits 10 ip)
      | (ip, Some fp) \<Rightarrow>
          if ip = [] \<and> fp = [] then None
          else
            (case (if ip = [] then Some 0 else digits 10 ip,
                   if fp = [] then Some 0 else digits 10 fp) of
               (Some i, Some f) \<Rightarrow> Some (of_nat i + of_nat f / 10 ^ length fp)
             | _ \<Rightarrow> None))"

definition unsigned_decimal :: "string \<Rightarrow> jsnum option" where
  "unsigned_decimal s =
     (if s = ''Infinity'' then Some PosInf
      else
        (case split_at (\<lambda>c. c = CHR ''e'' \<or> c = CHR ''E'') s of
           (m, None) \<Rightarrow> map_option Fin (mantissa m)
         | (m, Some e) \<Rightarrow>
             (case (mantissa m, signed_digits e) of
                (Some r, Some x) \<Rightarrow>
                  Some (Fin (if 0 \<le> x then r * 10 ^ nat x else r / 10 ^ nat (- x)))
              | _ \<Rightarrow> None)))"

fun negate :: "jsnum \<Rightarrow> jsnum" where
  "negate NaN = NaN"
| "negate PosInf = NegInf"
| "negate NegInf = PosInf"
| "negate (Fin r) = Fin (- r)"

definition prefixed_integer :: "string \<Rightarrow> jsnum option" where
  "prefixed_integer s =
     (case s of
        z # x # r \<Rightarrow>
          if z \<noteq> CHR ''0'' then None
          else if x = CHR ''x'' \<or> x = CHR ''X'' then map_option (\<lambda>n. Fin (of_nat n)) (digits 16 r)
          else if x = CHR ''o'' \<or> x = CHR ''O'' then map_option (\<lambda>n. Fin (of_nat n)) (digits 8 r)
          else if x = CHR ''b'' \<or> x = CHR ''B'' then map_option (\<lambda>n. Fin (of_nat n)) (digits 2 r)
          else None
      | _ \<Rightarrow> None)"

definition string_to_number :: "string \<Rightarrow> jsnum" where
  "string_to_number s =
     (case trim s of
        [] \<Rightarrow> Fin 0
      | c # r \<Rightarrow>
          (case prefixed_integer (c # r) of
             Some n \<Rightarrow> n
           | None \<Rightarrow>
               (case (if c = CHR ''-'' then map_option negate (unsigned_decimal r)
                      else if c = CHR ''+'' then unsigned_decimal r
                      else unsigned_decimal (c # r)) of
                  Some n \<Rightarrow> n
                | None \<Rightarrow> NaN)))"

text \<open>
  \<^verbatim>\<open>Number(v)\<close>, which is also the conversion that \<^verbatim>\<open>/\<close> and the comparisons with a
  number apply to an operand. An array or object is first converted to its text.
\<close>

fun js_Number :: "jsval \<Rightarrow> jsnum" where
  "js_Number JUndefined = NaN"
| "js_Number JNull = Fin 0"
| "js_Number (JBool b) = (if b then Fin 1 else Fin 0)"
| "js_Number (JNum n) = n"
| "js_Number (JStr s) = string_to_number s"
| "js_Number (JArr xs) = string_to_number (js_String (JArr xs))"
| "js_Number (JObj kvs) = string_to_number (js_String (JObj kvs))"

fun sign_of :: "jsnum \<Rightarrow> rat" where
  "sign_of NaN = 0"
| "sign_of PosInf = 1"
| "sign_of NegInf = - 1"
| "sign_of (Fin r) = sgn r"

text \<open>
  \<^verbatim>\<open>a / b\<close> on numbers. A zero divisor counts as positive zero: a non-zero finite
  dividend gives the infinity of its sign, and 0 / 0 is \<open>NaN\<close>.
\<close>

fun js_div :: "jsnum \<Rightarrow> jsnum \<Rightarrow> jsnum" where
  "js_div NaN b = NaN"
| "js_div a NaN = NaN"
| "js_div (Fin x) (Fin y) =
     (if y \<noteq> 0 then Fin (x / y)
      else if x = 0 then NaN
      else if 0 < x then PosInf else NegInf)"
| "js_div (Fin x) b = Fin 0"
| "js_div a (Fin y) =
     (if sign_of a * (if y < 0 then - 1 else 1) < 0 then NegInf else PosInf)"
| "js_div a b = NaN"

text \<open>\<^verbatim>\<open>Math.ceil\<close>\<close>

fun js_ceil :: "jsnum \<Rightarrow> jsnum" where
  "js_ceil (Fin r) = Fin (of_int \<lceil>r\<rceil>)"
| "js_ceil n = n"

text \<open>\<^verbatim>\<open>a < b\<close> and \<^verbatim>\<open>a >= b\<close> on numbers: every comparison with \<open>NaN\<close> is false.\<close>

fun js_lt :: "jsnum \<Rightarrow> jsnum \<Rightarrow> bool" where
  "js_lt NaN b = False"
| "js_lt a NaN = False"
| "js_lt a NegInf = False"
| "js_lt PosInf b = False"
| "js_lt NegInf b = True"
| "js_lt a PosInf = True"
| "js_lt (Fin x) (Fin y) = (x < y)"

definition js_ge :: "jsnum \<Rightarrow> jsnum \<Rightarrow> bool" where
  "js_ge a b = (a \<noteq> NaN \<and> b \<noteq> NaN \<and> \<not> js_lt a b)"

section \<open>Retry policies (src/unnamed/part_004: lib/error-handling.ts and lib/react-query.ts)\<close>

text \<open>
  A thrown value is a JavaScript value together with the error class it was constructed
  by, if any: \<^verbatim>\<open>instanceof\<close> reads the class, everything else reads the properties.
\<close>

datatype error_class =
  AppError | ValidationAppError | NetworkError | AuthenticationError | AuthorizationError

record failure =
  instance_of :: "error_class option"
  props :: jsval

definition new_AppError :: "string \<Rightarrow> jsnum \<Rightarrow> jsval \<Rightarrow> failure" where
  "new_AppError message status code =
     \<lparr>instance_of = Some AppError,
      props = JObj [(''message'', JStr message), (''name'', JStr ''AppError''),
                     (''status'', JNum status), (''code'', code)]\<rparr>"

definition new_ValidationAppError :: "string \<Rightarrow> jsval \<Rightarrow> jsnum \<Rightarrow> failure" where
  "new_ValidationAppError message errors status =
     \<lparr>instance_of = Some ValidationAppError,
      props = JObj [(''message'', JStr message), (''name'', JStr ''ValidationAppError''),
                     (''status'', JNum status), (''code'', JUndefined), (''errors'', errors)]\<rparr>"

definition new_NetworkError :: "string \<Rightarrow> failure" where
  "new_NetworkError message =
     \<lparr>instance_of = Some NetworkError,
      props = JObj [(''message'', JStr message), (''name'', JStr ''NetworkError''),
                     (''status'', JNum (Fin 0)), (''code'', JStr ''NETWORK_ERROR'')]\<rparr>"

definition new_AuthenticationError :: "string \<Rightarrow> failure" where
  "new_AuthenticationError message =
     \<lparr>instance_of = Some AuthenticationError,
      props = JObj [(''message'', JStr message), (''name'', JStr ''AuthenticationError''),
                     (''status'', JNum (Fin 401)), (''code'', JStr ''AUTH_ERROR'')]\<rparr>"

definition new_AuthorizationError :: "string \<Rightarrow> failure" where
  "new_AuthorizationError message =
     \<lparr>instance_of = Some AuthorizationError,
      props = JObj [(''message'', JStr message), (''name'', JStr ''AuthorizationError''),
                     (''status'', JNum (Fin 403)), (''code'', JStr ''AUTHORIZATION_ERROR'')]\<rparr>"

text \<open>
  The \<^verbatim>\<open>ApiError\<close> that \<^verbatim>\<open>makeApiRequest\<close> throws for every failed request
  (\<^verbatim>\<open>throw handleApiError(error)\<close>, that is \<^verbatim>\<open>errorUtils.toApiError\<close>): a plain object with
  the properties \<^verbatim>\<open>message\<close>, \<^verbatim>\<open>status\<close> and \<^verbatim>\<open>code\<close>.
\<close>

definition apiError :: "string \<Rightarrow> jsnum \<Rightarrow> jsval \<Rightarrow> failure" where
  "apiError message status code =
     \<lparr>instance_of = None,
      props = JObj [(''message'', JStr message), (''status'', JNum status), (''code'', code)]\<rparr>"

text \<open>\<^verbatim>\<open>!!(error && typeof error === 'object' && 'status' in error && error.status === n)\<close>\<close>

definition has_status :: "failure \<Rightarrow> rat \<Rightarrow> bool" where
  "has_status error n =
     (truthy (props error) \<and> typeof_object (props error) \<and> has_prop (props error) ''status'' \<and>
      field (props error) ''status'' = JNum (Fin n))"

definition isAuthError :: "failure \<Rightarrow> bool" where
  "isAuthError error =
     (if instance_of error = Some AuthenticationError then True else has_status error 401)"

definition isAuthorizationError :: "failure \<Rightarrow> bool" where
  "isAuthorizationError error =
     (if instance_of error = Some AuthorizationError then True else has_status error 403)"

definition isValidationError :: "failure \<Rightarrow> bool" where
  "isValidationError error =
     (if instance_of error = Some ValidationAppError then True else has_status error 400)"

text \<open>
  \<^verbatim>\<open>errorUtils.retry(fn, maxRetries, baseDelay)\<close>. The operation \<open>fn\<close> is given by the
  outcome of each of its invocations, counted from 0; one invocation is made per
  attempt. The result is the outcome, the number of invocations made, and the delays
  waited between them. \<open>lastError\<close> is thrown when the loop ends without an attempt.
\<close>

function retry_from ::
  "(nat \<Rightarrow> failure + 'a) \<Rightarrow> int \<Rightarrow> int \<Rightarrow> nat \<Rightarrow> failure \<Rightarrow> (failure + 'a) \<times> nat \<times> int list" where
  "retry_from fn maxRetries baseDelay attempt lastError =
     (if int attempt \<le> maxRetries then
        (case fn attempt of
           Inr v \<Rightarrow> (Inr v, attempt + 1, [])
         | Inl error \<Rightarrow>
             if isAuthError error \<or> isAuthorizationError error then (Inl error, attempt + 1, [])
             else if isValidationError error then (Inl error, attempt + 1, [])
             else if int attempt = maxRetries then (Inl error, attempt + 1, [])
             else
               (case retry_from fn maxRetries baseDelay (attempt + 1) error of
                  (r, n, delays) \<Rightarrow> (r, n, baseDelay * 2 ^ attempt # delays)))
      else (Inl lastError, attempt, []))"
  by pat_completeness auto
termination
  by (relation "measure (\<lambda>(fn, maxRetries, baseDelay, attempt, lastError).
        nat (maxRetries + 1 - int attempt))") auto

definition retry :: "(nat \<Rightarrow> failure + 'a) \<Rightarrow> int \<Rightarrow> int \<Rightarrow> (failure + 'a) \<times> nat \<times> int list" where
  "retry fn maxRetries baseDelay =
     retry_from fn maxRetries baseDelay 0 \<lparr>instance_of = None, props = JUndefined\<rparr>"

text \<open>
  \<^verbatim>\<open>queryConfig.queries.retry\<close>: reads \<^verbatim>\<open>error?.response?.status\<close>; the comparisons with
  400 and 500 convert the status to a number.
\<close>

definition queries_retry :: "nat \<Rightarrow> failure \<Rightarrow> bool" where
  "queries_retry failureCount error =
     (let response = (if nullish (props error) then JUndefined
                      else field (props error) ''response'');
          status = (if nullish response then JUndefined else field response ''status'')
      in if truthy status \<and> js_ge (js_Number status) (Fin 400) \<and>
            js_lt (js_Number status) (Fin 500)
         then False
         else failureCount < 3)"

text \<open>\<^verbatim>\<open>queryConfig.mutations.retry\<close>\<close>

definition mutations_retry :: nat where
  "mutations_retry = 1"

text \<open>
  The \<^verbatim>\<open>retry\<close> option as the query library applies it to a query function or a mutation
  function. The library counts the failures so far, starting at 0. After a failure it
  retries when the option is a number above the count, or a predicate that holds of the
  count and the error; then it adds one to the count and runs the operation again. The
  result is the outcome and the number of invocations; \<open>None\<close> stands for a run that
  never ends.
\<close>

datatype retry_option = Times nat | Predicate "nat \<Rightarrow> failure \<Rightarrow> bool"

fun shouldRetry :: "retry_option \<Rightarrow> nat \<Rightarrow> failure \<Rightarrow> bool" where
  "shouldRetry (Times n) failureCount error = (failureCount < n)"
| "shouldRetry (Predicate p) failureCount error = p failureCount error"

partial_function (option) retryer ::
  "retry_option \<Rightarrow> (nat \<Rightarrow> failure + 'a) \<Rightarrow> nat \<Rightarrow> ((failure + 'a) \<times> nat) option" where
  "retryer retry_opt fn failureCount =
     (case fn failureCount of
        Inr v \<Rightarrow> Some (Inr v, failureCount + 1)
      | Inl error \<Rightarrow>
          if shouldRetry retry_opt failureCount error
          then retryer retry_opt fn (failureCount + 1)
          else Some (Inl error, failureCount + 1))"

declare retryer.simps [code]

definition run_query :: "(nat \<Rightarrow> failure + 'a) \<Rightarrow> ((failure + 'a) \<times> nat) option" where
  "run_query queryFn = retryer (Predicate queries_retry) queryFn 0"

definition run_mutation :: "(nat \<Rightarrow> failure + 'a) \<Rightarrow> ((failure + 'a) \<times> nat) option" where
  "run_mutation mutationFn = retryer (Times mutations_retry) mutationFn 0"

section \<open>Response normalizers (src/src/lib/response-transformers.ts)\<close>

text \<open>
  Each normalizer takes a payload of any shape and builds an object literal. Its first
  property read throws a \<^verbatim>\<open>TypeError\<close> when the payload is \<^verbatim>\<open>null\<close> or \<^verbatim>\<open>undefined\<close>;
  nothing else in it can throw.
\<close>

definition transformUser :: "jsval \<Rightarrow> js_error + jsval" where
  "transformUser user =
     (if nullish user then Inl TypeError
      else Inr (JObj
        [(''id'', JStr (js_String (field user ''id''))),
         (''name'', JStr (js_String (js_or (field user ''name'') (JStr [])))),
         (''email'', JStr (js_String (js_or (field user ''email'') (JStr [])))),
         (''role'', if field user ''role'' = JStr ''DOCTOR'' then JStr ''DOCTOR'' else JStr ''PATIENT''),
         (''photo_url'',
            if truthy (field user ''photo_url'') then JStr (js_String (field user ''photo_url''))
            else JUndefined)]))"

definition transformDoctor :: "jsval \<Rightarrow> js_error + jsval" where
  "transformDoctor doctor =
     (case transformUser doctor of
        Inl e \<Rightarrow> Inl e
      | Inr baseUser \<Rightarrow>
          Inr (JObj (assign (assign (spread baseUser) ''role'' (JStr ''DOCTOR''))
            ''specialization'' (JStr (js_String (js_or (field doctor ''specialization'') (JStr [])))))))"

definition transformPatient :: "jsval \<Rightarrow> js_error + jsval" where
  "transformPatient patient =
     (case transformUser patient of
        Inl e \<Rightarrow> Inl e
      | Inr baseUser \<Rightarrow> Inr (JObj (assign (spread baseUser) ''role'' (JStr ''PATIENT''))))"

text \<open>
  \<open>created_now\<close> and \<open>updated_now\<close> are the texts that the two calls of
  \<^verbatim>\<open>new Date().toISOString()\<close> return; each is read only when the payload has neither
  spelling of the field.
\<close>

definition transformAppointment :: "string \<Rightarrow> string \<Rightarrow> jsval \<Rightarrow> js_error + jsval" where
  "transformAppointment created_now updated_now appointment =
     (if nullish appointment then Inl TypeError
      else
        (case (if truthy (field appointment ''doctor'')
               then transformDoctor (field appointment ''doctor'') else Inr JUndefined) of
           Inl e \<Rightarrow> Inl e
         | Inr doctor \<Rightarrow>
        (case (if truthy (field appointment ''patient'')
               then transformPatient (field appointment ''patient'') else Inr JUndefined) of
           Inl e \<Rightarrow> Inl e
         | Inr patient \<Rightarrow>
             Inr (JObj
               [(''id'', JStr (js_String (field appointment ''id''))),
                (''doctorId'', JStr (js_String
                   (js_or (field appointment ''doctorId'') (field appointment ''doctor_id'')))),
                (''patientId'', JStr (js_String
                   (js_or (field appointment ''patientId'') (field appointment ''patient_id'')))),
                (''date'', JStr (js_String (field appointment ''date''))),
                (''status'',
                   if field appointment ''status'' = JStr ''COMPLETED'' then JStr ''COMPLETED''
                   else if field appointment ''status'' = JStr ''CANCELLED'' then JStr ''CANCELLED''
                   else JStr ''PENDING''),
                (''doctor'', doctor),
                (''patient'', patient),
                (''createdAt'', JStr (js_String
                   (js_or (js_or (field appointment ''createdAt'') (field appointment ''created_at''))
                      (JStr created_now)))),
                (''updatedAt'', JStr (js_String
                   (js_or (js_or (field appointment ''updatedAt'') (field appointment ''updated_at''))
                      (JStr updated_now))))]))))"

definition transformSpecialization :: "jsval \<Rightarrow> js_error + jsval" where
  "transformSpecialization specialization =
     (if nullish specialization then Inl TypeError
      else Inr (JObj
        [(''id'', JStr (js_String (field specialization ''id''))),
         (''name'', JStr (js_String (js_or (field specialization ''name'') (JStr []))))]))"

text \<open>\<^verbatim>\<open>xs.map(f)\<close> for an \<open>f\<close> that may throw: the first error ends the loop.\<close>

fun map_items :: "(jsval \<Rightarrow> js_error + jsval) \<Rightarrow> jsval list \<Rightarrow> js_error + jsval list" where
  "map_items f [] = Inr []"
| "map_items f (x # xs) =
     (case f x of
        Inl e \<Rightarrow> Inl e
      | Inr y \<Rightarrow> (case map_items f xs of Inl e \<Rightarrow> Inl e | Inr ys \<Rightarrow> Inr (y # ys)))"

definition transformPaginatedResponse ::
  "jsval \<Rightarrow> (jsval \<Rightarrow> js_error + jsval) \<Rightarrow> js_error + jsval" where
  "transformPaginatedResponse response itemTransformer =
     (if nullish response then Inl TypeError
      else
        let data = (if isArray (field response ''data'') then elements (field response ''data'')
                    else []);
            pagination = js_or (field response ''pagination'') (JObj [])
        in case map_items itemTransformer data of
             Inl e \<Rightarrow> Inl e
           | Inr items \<Rightarrow>
               Inr (JObj
                 [(''data'', JArr items),
                  (''pagination'', JObj
                     [(''page'', JNum (js_Number (js_or (field pagination ''page'') (JNum (Fin 1))))),
                      (''limit'', JNum (js_Number (js_or (field pagination ''limit'') (JNum (Fin 10))))),
                      (''total'', JNum (js_Number (js_or (field pagination ''total'') (JNum (Fin 0))))),
                      (''totalPages'', JNum (js_Number
                         (js_or (field pagination ''totalPages'')
                            (JNum (js_ceil (js_div
                               (js_Number (js_or (field pagination ''total'') (JNum (Fin 0))))
                               (js_Number (js_or (field pagination ''limit'') (JNum (Fin 10))))))))))])]))"

text \<open>\<^verbatim>\<open>transformArray\<close>\<close>

definition transformArray :: "jsval \<Rightarrow> (jsval \<Rightarrow> js_error + jsval) \<Rightarrow> js_error + jsval list" where
  "transformArray items transformer =
     (if isArray items then map_items transformer (elements items) else Inr [])"

section \<open>Optimistic status update (src/src/hooks/queries/appointments.ts)\<close>

text \<open>
  The query cache of the query library, as far as this hook uses it: the queries in the
  order they were created, each with its key and its data (\<^verbatim>\<open>undefined\<close> while it has
  none). A key is an array of JSON values. The library tells keys apart by their hash,
  which is the JSON text with the properties of objects sorted, so a key stands here for
  that canonical form, and no two queries of a cache have the same key.
\<close>

type_synonym query_key = "jsval list"

type_synonym query_cache = "(query_key \<times> jsval) list"

text \<open>
  A query matches the filter \<^verbatim>\<open>{ queryKey: [s1, ..., sn] }\<close> of strings when its key starts
  with them.
\<close>

definition partialMatchKey :: "query_key \<Rightarrow> string list \<Rightarrow> bool" where
  "partialMatchKey queryKey filterKey = (take (length filterKey) queryKey = map JStr filterKey)"

definition getQueriesData :: "query_cache \<Rightarrow> string list \<Rightarrow> (query_key \<times> jsval) list" where
  "getQueriesData cache filterKey = filter (\<lambda>(queryKey, data). partialMatchKey queryKey filterKey) cache"

definition getQueryData :: "query_cache \<Rightarrow> query_key \<Rightarrow> jsval" where
  "getQueryData cache queryKey = (case map_of cache queryKey of Some data \<Rightarrow> data | None \<Rightarrow> JUndefined)"

text \<open>\<^verbatim>\<open>setQueryData(queryKey, data)\<close> with a value: \<^verbatim>\<open>undefined\<close> is not written.\<close>

definition setQueryData :: "query_cache \<Rightarrow> query_key \<Rightarrow> jsval \<Rightarrow> query_cache" where
  "setQueryData cache queryKey data = (if data = JUndefined then cache else assign cache queryKey data)"

text \<open>\<^verbatim>\<open>queryKeys.appointmentDetails(id)\<close>\<close>

definition appointmentDetails :: "string \<Rightarrow> query_key" where
  "appointmentDetails i = [JStr ''appointments'', JStr ''detail'', JStr i]"

record statusData =
  appointment_id :: string
  status :: string

text \<open>
  The inner function \<^verbatim>\<open>updateAppointmentStatus\<close> of \<^verbatim>\<open>onMutate\<close>. \<open>iso_now\<close> is the text of
  \<^verbatim>\<open>new Date().toISOString()\<close>. Reading \<^verbatim>\<open>appointment.id\<close> throws on \<^verbatim>\<open>null\<close> and \<^verbatim>\<open>undefined\<close>.
\<close>

definition updateAppointmentStatus :: "statusData \<Rightarrow> string \<Rightarrow> jsval \<Rightarrow> js_error + jsval" where
  "updateAppointmentStatus sd iso_now appointment =
     (if nullish appointment then Inl TypeError
      else if field appointment ''id'' = JStr (appointment_id sd) then
        Inr (JObj (assign
          (assign (spread appointment) ''status''
             (JStr (if status sd = ''COMPLETE'' then ''COMPLETED'' else ''CANCELLED'')))
          ''updatedAt'' (JStr iso_now)))
      else Inr appointment)"

text \<open>
  The body of the two \<^verbatim>\<open>forEach\<close> loops of \<^verbatim>\<open>onMutate\<close> for one snapshot entry: the new data
  to write, \<open>None\<close> when the guard fails, or the \<^verbatim>\<open>TypeError\<close> of \<^verbatim>\<open>paginatedData.data.map\<close> on
  something that is not an array and of the inner function on an element.
\<close>

definition optimistic_data :: "statusData \<Rightarrow> string \<Rightarrow> jsval \<Rightarrow> js_error + jsval option" where
  "optimistic_data sd iso_now data =
     (if truthy data \<and> typeof_object data \<and> has_prop data ''data'' then
        (if isArray (field data ''data'') then
           (case map_items (updateAppointmentStatus sd iso_now) (elements (field data ''data'')) of
              Inl e \<Rightarrow> Inl e
            | Inr ys \<Rightarrow> Inr (Some (JObj (assign (spread data) ''data'' (JArr ys)))))
         else Inl TypeError)
      else Inr None)"

text \<open>
  A \<^verbatim>\<open>forEach\<close> loop over a snapshot. A throw ends it; what was written before stays in
  the cache.
\<close>

fun update_lists ::
  "statusData \<Rightarrow> string \<Rightarrow> query_cache \<Rightarrow> (query_key \<times> jsval) list \<Rightarrow> query_cache \<times> js_error option" where
  "update_lists sd iso_now cache [] = (cache, None)"
| "update_lists sd iso_now cache ((queryKey, data) # rest) =
     (case optimistic_data sd iso_now data of
        Inl e \<Rightarrow> (cache, Some e)
      | Inr None \<Rightarrow> update_lists sd iso_now cache rest
      | Inr (Some paginatedData) \<Rightarrow>
          update_lists sd iso_now (setQueryData cache queryKey paginatedData) rest)"

record mutation_context =
  previousPatientAppointments :: "(query_key \<times> jsval) list"
  previousDoctorAppointments :: "(query_key \<times> jsval) list"
  previousAppointment :: jsval

text \<open>
  \<^verbatim>\<open>onMutate\<close>, from the two snapshots on (the cancelling of running fetches before them
  writes no data). The result is the cache after the writes, and the context for the
  rollback or the error thrown.
\<close>

definition onMutate ::
  "query_cache \<Rightarrow> statusData \<Rightarrow> string \<Rightarrow> query_cache \<times> (js_error + mutation_context)" where
  "onMutate cache sd iso_now =
     (let patients = getQueriesData cache [''appointments'', ''patient''];
          doctors = getQueriesData cache [''appointments'', ''doctor'']
      in case update_lists sd iso_now cache patients of
           (cache1, Some e) \<Rightarrow> (cache1, Inl e)
         | (cache1, None) \<Rightarrow>
        (case update_lists sd iso_now cache1 doctors of
           (cache2, Some e) \<Rightarrow> (cache2, Inl e)
         | (cache2, None) \<Rightarrow>
             let appointmentDetailKey = appointmentDetails (appointment_id sd);
                 existingAppointment = getQueryData cache2 appointmentDetailKey;
                 context = \<lparr>previousPatientAppointments = patients,
                            previousDoctorAppointments = doctors,
                            previousAppointment = existingAppointment\<rparr>
             in if truthy existingAppointment then
                  (case updateAppointmentStatus sd iso_now existingAppointment of
                     Inl e \<Rightarrow> (cache2, Inl e)
                   | Inr updated \<Rightarrow> (setQueryData cache2 appointmentDetailKey updated, Inr context))
                else (cache2, Inr context)))"

text \<open>\<^verbatim>\<open>snapshot.forEach(([queryKey, data]) => queryClient.setQueryData(queryKey, data))\<close>\<close>

definition restore :: "query_cache \<Rightarrow> (query_key \<times> jsval) list \<Rightarrow> query_cache" where
  "restore cache snapshot = foldl (\<lambda>c (queryKey, data). setQueryData c queryKey data) cache snapshot"

text \<open>
  \<^verbatim>\<open>onError\<close>. The context is what \<^verbatim>\<open>onMutate\<close> returned, and \<open>None\<close> (\<^verbatim>\<open>undefined\<close>) when
  \<^verbatim>\<open>onMutate\<close> threw.
\<close>

definition onError :: "query_cache \<Rightarrow> statusData \<Rightarrow> mutation_context option \<Rightarrow> query_cache" where
  "onError cache sd context =
     (case context of
        None \<Rightarrow> cache
      | Some ctx \<Rightarrow>
          let cache1 = restore cache (previousPatientAppointments ctx);
              cache2 = restore cache1 (previousDoctorAppointments ctx)
          in if truthy (previousAppointment ctx)
             then setQueryData cache2 (appointmentDetails (appointment_id sd)) (previousAppointment ctx)
             else cache2)"

section \<open>Session store (src/src/store/auth-store.ts, src/src/services/auth.ts)\<close>

text \<open>
  \<open>authService\<close> keeps the token and the user under two keys of \<^verbatim>\<open>localStorage\<close>.
  Every access is guarded by \<^verbatim>\<open>typeof window !== 'undefined'\<close>: the storage is \<open>None\<close>
  where there is no window. \<open>user_data\<close> holds the user that \<^verbatim>\<open>JSON.parse\<close> gives back
  from the stored text (\<^verbatim>\<open>setUser\<close> stores \<^verbatim>\<open>JSON.stringify(user)\<close>). The store never looks
  inside a user, so the user type is a parameter.
\<close>

record 'u local_storage =
  auth_token :: "string option"
  user_data :: "'u option"

type_synonym 'u window = "'u local_storage option"

definition authService_logout :: "'u window \<Rightarrow> 'u window" where
  "authService_logout w =
     (case w of None \<Rightarrow> None
      | Some ls \<Rightarrow> Some (ls\<lparr>auth_token := None, user_data := None\<rparr>))"

definition authService_getToken :: "'u window \<Rightarrow> string option" where
  "authService_getToken w = (case w of None \<Rightarrow> None | Some ls \<Rightarrow> auth_token ls)"

definition authService_setToken :: "'u window \<Rightarrow> string \<Rightarrow> 'u window" where
  "authService_setToken w t =
     (case w of None \<Rightarrow> None | Some ls \<Rightarrow> Some (ls\<lparr>auth_token := Some t\<rparr>))"

definition authService_getUser :: "'u window \<Rightarrow> 'u option" where
  "authService_getUser w = (case w of None \<Rightarrow> None | Some ls \<Rightarrow> user_data ls)"

definition authService_setUser :: "'u window \<Rightarrow> 'u \<Rightarrow> 'u window" where
  "authService_setUser w u =
     (case w of None \<Rightarrow> None | Some ls \<Rightarrow> Some (ls\<lparr>user_data := Some u\<rparr>))"

record 'u auth_state =
  user :: "'u option"
  token :: "string option"
  isAuthenticated :: bool
  isLoading :: bool
  error :: "string option"

definition initial_state :: "'u auth_state" where
  "initial_state =
     \<lparr>user = None, token = None, isAuthenticated = False, isLoading = False, error = None\<rparr>"

text \<open>
  What a rejected service call throws: an instance of \<^verbatim>\<open>Error\<close> with its message, or any
  other value. The store shows the message of the former and a fixed text for the latter.
\<close>

datatype thrown = ErrorInstance string | OtherValue

definition errorMessage :: "thrown \<Rightarrow> string \<Rightarrow> string" where
  "errorMessage e fallback = (case e of ErrorInstance m \<Rightarrow> m | OtherValue \<Rightarrow> fallback)"

text \<open>The first \<^verbatim>\<open>set\<close> of \<^verbatim>\<open>login\<close> and of the two registrations, before the request is awaited.\<close>

definition request_started :: "'u auth_state \<Rightarrow> 'u auth_state" where
  "request_started s = s\<lparr>isLoading := True, error := None\<rparr>"

text \<open>
  The rest of the three asynchronous actions, once the service call has settled with
  \<open>Inr (user, token)\<close> or has thrown \<open>Inl e\<close>. The third component is the error rethrown
  to the caller.
\<close>

definition request_settled ::
  "string \<Rightarrow> 'u window \<Rightarrow> 'u auth_state \<Rightarrow> thrown + 'u \<times> string
     \<Rightarrow> 'u window \<times> 'u auth_state \<times> thrown option" where
  "request_settled fallback w s r =
     (case r of
        Inr (u, t) \<Rightarrow>
          (authService_setUser (authService_setToken w t) u,
           s\<lparr>user := Some u, token := Some t, isAuthenticated := True,
             isLoading := False, error := None\<rparr>,
           None)
      | Inl e \<Rightarrow>
          (w,
           s\<lparr>user := None, token := None, isAuthenticated := False,
             isLoading := False, error := Some (errorMessage e fallback)\<rparr>,
           Some e))"

definition login ::
  "'u window \<Rightarrow> 'u auth_state \<Rightarrow> thrown + 'u \<times> string
     \<Rightarrow> 'u window \<times> 'u auth_state \<times> thrown option" where
  "login w s r = request_settled ''Login failed'' w (request_started s) r"

definition registerPatient ::
  "'u window \<Rightarrow> 'u auth_state \<Rightarrow> thrown + 'u \<times> string
     \<Rightarrow> 'u window \<times> 'u auth_state \<times> thrown option" where
  "registerPatient w s r =
     request_settled ''Patient registration failed'' w (request_started s) r"

definition registerDoctor ::
  "'u window \<Rightarrow> 'u auth_state \<Rightarrow> thrown + 'u \<times> string
     \<Rightarrow> 'u window \<times> 'u auth_state \<times> thrown option" where
  "registerDoctor w s r =
     request_settled ''Doctor registration failed'' w (request_started s) r"

definition logout :: "'u window \<Rightarrow> 'u auth_state \<Rightarrow> 'u window \<times> 'u auth_state" where
  "logout w s =
     (authService_logout w,
      s\<lparr>user := None, token := None, isAuthenticated := False,
        isLoading := False, error := None\<rparr>)"

definition setUser :: "'u window \<Rightarrow> 'u auth_state \<Rightarrow> 'u \<Rightarrow> 'u window \<times> 'u auth_state" where
  "setUser w s u = (authService_setUser w u, s\<lparr>user := Some u\<rparr>)"

definition setToken :: "'u window \<Rightarrow> 'u auth_state \<Rightarrow> string \<Rightarrow> 'u window \<times> 'u auth_state" where
  "setToken w s t = (authService_setToken w t, s\<lparr>token := Some t, isAuthenticated := True\<rparr>)"

definition clearError :: "'u auth_state \<Rightarrow> 'u auth_state" where
  "clearError s = s\<lparr>error := None\<rparr>"

text \<open>
  \<^verbatim>\<open>if (token && user)\<close>: a user object is always truthy, a token is truthy when it is
  not \<^verbatim>\<open>null\<close> and not the empty string.
\<close>

definition initialize :: "'u window \<Rightarrow> 'u auth_state \<Rightarrow> 'u auth_state" where
  "initialize w s =
     (case (authService_getToken w, authService_getUser w) of
        (Some t, Some u) \<Rightarrow>
          if t \<noteq> [] then
            s\<lparr>user := Some u, token := Some t, isAuthenticated := True,
              isLoading := False, error := None\<rparr>
          else
            s\<lparr>user := None, token := None, isAuthenticated := False,
              isLoading := False, error := None\<rparr>
      | _ \<Rightarrow>
          s\<lparr>user := None, token := None, isAuthenticated := False,
            isLoading := False, error := None\<rparr>)"

text \<open>
  The operations on the store, one constructor each. \<open>RequestStarted\<close> is the state
  between the first \<^verbatim>\<open>set\<close> of an asynchronous action and its settlement, where other
  operations may run. \<open>StorageChanged\<close> is a write to \<^verbatim>\<open>localStorage\<close> from outside the store
  (the transport client removes both keys on a 401 response).
\<close>

datatype 'u action =
    Login "thrown + 'u \<times> string"
  | RegisterPatient "thrown + 'u \<times> string"
  | RegisterDoctor "thrown + 'u \<times> string"
  | Logout
  | SetUser 'u
  | SetToken string
  | ClearError
  | Initialize
  | RequestStarted
  | StorageChanged "'u window"

fun apply_action :: "'u window \<times> 'u auth_state \<Rightarrow> 'u action \<Rightarrow> 'u window \<times> 'u auth_state" where
  "apply_action (w, s) (Login r) = (case login w s r of (w', s', _) \<Rightarrow> (w', s'))"
| "apply_action (w, s) (RegisterPatient r) = (case registerPatient w s r of (w', s', _) \<Rightarrow> (w', s'))"
| "apply_action (w, s) (RegisterDoctor r) = (case registerDoctor w s r of (w', s', _) \<Rightarrow> (w', s'))"
| "apply_action (w, s) Logout = logout w s"
| "apply_action (w, s) (SetUser u) = setUser w s u"
| "apply_action (w, s) (SetToken t) = setToken w s t"
| "apply_action (w, s) ClearError = (w, clearError s)"
| "apply_action (w, s) Initialize = (w, initialize w s)"
| "apply_action (w, s) RequestStarted = (w, request_started s)"
| "apply_action (w, s) (StorageChanged w') = (w', s)"

definition run_actions :: "'u window \<Rightarrow> 'u action list \<Rightarrow> 'u window \<times> 'u auth_state" where
  "run_actions w acts = foldl apply_action (w, initial_state) acts"

fun is_SetToken :: "'u action \<Rightarrow> bool" where
  "is_SetToken (SetToken t) = True"
| "is_SetToken _ = False"

section \<open>Notifications of the UI store (src/unnamed/part_001: store/ui-store.ts)\<close>

text \<open>
  A notification as \<^verbatim>\<open>addNotification\<close> receives it (\<^verbatim>\<open>Omit<Notification, 'id'>\<close>), and as the
  store keeps it. A duration is a whole number of milliseconds.
\<close>

datatype notification_type = Success | Error | Info | Warning

record notification_data =
  type :: notification_type
  message :: string
  duration :: "int option"

record notification = notification_data +
  id' :: string

text \<open>
  A pending timeout of \<^verbatim>\<open>setTimeout\<close>. The only callback this store schedules is
  \<^verbatim>\<open>removeNotification(id)\<close>, so a timer is the time it fires at and that id.
\<close>

record timer =
  fires_at :: int
  removes :: string

text \<open>
  The store with its environment: the notification list, the pending timers in the order
  they were set, and the clock. The loading flag and the modal flags of the store are left
  out: the three actions below do not read or write them.
\<close>

record ui_store =
  notifications :: "notification list"
  timers :: "timer list"
  now :: int

definition removeNotification :: "ui_store \<Rightarrow> string \<Rightarrow> ui_store" where
  "removeNotification st i = st\<lparr>notifications := filter (\<lambda>n. id' n \<noteq> i) (notifications st)\<rparr>"

definition clearNotifications :: "ui_store \<Rightarrow> ui_store" where
  "clearNotifications st = st\<lparr>notifications := []\<rparr>"



text \<open>
  The simulated clock (\<^verbatim>\<open>advanceTimersByTime\<close>): the timers due within the next \<open>ms\<close>
  milliseconds fire in the order of their times, each running its callback, and the
  clock moves on by \<open>ms\<close>.
\<close>

definition advanceTimersByTime :: "ui_store \<Rightarrow> nat \<Rightarrow> ui_store" where
  "advanceTimersByTime st ms =
     (let due = filter (\<lambda>t. fires_at t \<le> now st + int ms) (timers st);
          st' = foldl (\<lambda>s t. removeNotification s (removes t)) st (sort_key fires_at due)
      in st'\<lparr>timers := filter (\<lambda>t. \<not> fires_at t \<le> now st + int ms) (timers st),
             now := now st + int ms\<rparr>)"


section \<open>Properties of the session store\<close>

lemma apply_action_token_inv:
  assumes "isAuthenticated (snd ws) = (token (snd ws) \<noteq> None)"
  shows "isAuthenticated (snd (apply_action ws a)) = (token (snd (apply_action ws a)) \<noteq> None)"
proof (cases ws)
  case (Pair w s)
  with assms show ?thesis
    by (cases a)
       (auto simp: login_def registerPatient_def registerDoctor_def request_settled_def
          request_started_def logout_def setUser_def setToken_def clearError_def
          initialize_def split: sum.splits option.splits prod.splits)
qed

lemma apply_action_user_inv:
  assumes "token (snd ws) \<noteq> None \<longrightarrow> user (snd ws) \<noteq> None"
    and "\<not> is_SetToken a"
  shows "token (snd (apply_action ws a)) \<noteq> None \<longrightarrow> user (snd (apply_action ws a)) \<noteq> None"
proof (cases ws)
  case (Pair w s)
  with assms show ?thesis
    by (cases a)
       (auto simp: login_def registerPatient_def registerDoctor_def request_settled_def
          request_started_def logout_def setUser_def clearError_def
          initialize_def split: sum.splits option.splits prod.splits)
qed

lemma foldl_token_inv:
  "isAuthenticated (snd ws) = (token (snd ws) \<noteq> None) \<Longrightarrow>
   isAuthenticated (snd (foldl apply_action ws acts)) =
     (token (snd (foldl apply_action ws acts)) \<noteq> None)"
  by (induction acts arbitrary: ws) (simp_all add: apply_action_token_inv)

lemma foldl_user_inv:
  "token (snd ws) \<noteq> None \<longrightarrow> user (snd ws) \<noteq> None \<Longrightarrow>
   \<forall>a \<in> set acts. \<not> is_SetToken a \<Longrightarrow>
   token (snd (foldl apply_action ws acts)) \<noteq> None \<longrightarrow>
     user (snd (foldl apply_action ws acts)) \<noteq> None"
proof (induction acts arbitrary: ws)
  case Nil
  then show ?case by simp
next
  case (Cons a acts)
  from Cons.prems have "token (snd (apply_action ws a)) \<noteq> None \<longrightarrow>
      user (snd (apply_action ws a)) \<noteq> None"
    by (intro apply_action_user_inv) simp_all
  with Cons.IH [of "apply_action ws a"] Cons.prems(2) show ?case by simp
qed

text \<open>
  C3 as stated fails: \<^verbatim>\<open>setToken\<close> on the initial state sets the authenticated flag and
  leaves the user \<^verbatim>\<open>null\<close>.
\<close>

theorem C3_setToken_counterexample:
  "isAuthenticated (snd (run_actions None [SetToken ''tok'' :: jsval action])) \<noteq>
     (user (snd (run_actions None [SetToken ''tok'' :: jsval action])) \<noteq> None \<and>
      token (snd (run_actions None [SetToken ''tok'' :: jsval action])) \<noteq> None)"
  by (simp add: run_actions_def setToken_def authService_setToken_def initial_state_def)

text \<open>
  C3, amended: after any sequence of operations from the initial state the authenticated
  flag is true exactly when the token is not \<^verbatim>\<open>null\<close>; and when no \<^verbatim>\<open>setToken\<close> is among
  the operations, it is true exactly when both the user and the token are not \<^verbatim>\<open>null\<close>.
\<close>

theorem C3_authenticated_invariant:
  "isAuthenticated (snd (run_actions w acts)) = (token (snd (run_actions w acts)) \<noteq> None) \<and>
   ((\<forall>a \<in> set acts. \<not> is_SetToken a) \<longrightarrow>
      isAuthenticated (snd (run_actions w acts)) =
        (user (snd (run_actions w acts)) \<noteq> None \<and> token (snd (run_actions w acts)) \<noteq> None))"
proof -
  let ?ws = "(w, initial_state :: 'a auth_state)"
  have t: "isAuthenticated (snd (foldl apply_action ?ws acts)) =
      (token (snd (foldl apply_action ?ws acts)) \<noteq> None)"
    by (rule foldl_token_inv) (simp add: initial_state_def)
  have u: "token (snd (foldl apply_action ?ws acts)) \<noteq> None \<longrightarrow>
      user (snd (foldl apply_action ?ws acts)) \<noteq> None"
    if "\<forall>a \<in> set acts. \<not> is_SetToken a"
    using that by (intro foldl_user_inv) (simp_all add: initial_state_def)
  from t u show ?thesis
    unfolding run_actions_def by blast
qed

theorem C3_authenticated_invariant_witness:
  "isAuthenticated (snd (run_actions (Some \<lparr>auth_token = None, user_data = None\<rparr>)
      [Login (Inr (JObj [(''id'', JStr ''1''), (''name'', JStr ''John Doe'')], ''tok'')), SetUser (JObj [(''id'', JStr ''1''), (''name'', JStr ''John D.'')]), ClearError, Initialize])) \<and>
   user (snd (run_actions (Some \<lparr>auth_token = None, user_data = None\<rparr>)
      [Login (Inr (JObj [(''id'', JStr ''1''), (''name'', JStr ''John Doe'')], ''tok'')), SetUser (JObj [(''id'', JStr ''1''), (''name'', JStr ''John D.'')]), ClearError, Initialize])) \<noteq> None \<and>
   token (snd (run_actions (Some \<lparr>auth_token = None, user_data = None\<rparr>)
      [Login (Inr (JObj [(''id'', JStr ''1''), (''name'', JStr ''John Doe'')], ''tok'')), SetUser (JObj [(''id'', JStr ''1''), (''name'', JStr ''John D.'')]), ClearError, Initialize])) \<noteq> None"
proof -
  have h: "\<forall>a \<in> set [Login (Inr (JObj [(''id'', JStr ''1''), (''name'', JStr ''John Doe'')], ''tok'')), SetUser (JObj [(''id'', JStr ''1''), (''name'', JStr ''John D.'')]), ClearError, Initialize].
      \<not> is_SetToken a"
    by simp
  have a: "isAuthenticated (snd (run_actions (Some \<lparr>auth_token = None, user_data = None\<rparr>)
      [Login (Inr (JObj [(''id'', JStr ''1''), (''name'', JStr ''John Doe'')], ''tok'')), SetUser (JObj [(''id'', JStr ''1''), (''name'', JStr ''John D.'')]), ClearError, Initialize]))"
    by (simp add: run_actions_def login_def request_settled_def request_started_def
        setUser_def clearError_def initialize_def authService_setToken_def
        authService_setUser_def authService_getToken_def authService_getUser_def
        initial_state_def)
  show ?thesis
    using h a C3_authenticated_invariant
      [of "Some \<lparr>auth_token = None, user_data = None\<rparr>"
          "[Login (Inr (JObj [(''id'', JStr ''1''), (''name'', JStr ''John Doe'')], ''tok'')), SetUser (JObj [(''id'', JStr ''1''), (''name'', JStr ''John D.'')]), ClearError, Initialize]"]
    by blast
qed




section \<open>Properties of the retry policies\<close>

lemma retryer_success:
  "fn k = Inr v \<Longrightarrow> retryer opt fn k = Some (Inr v, k + 1)"
  by (subst retryer.simps) simp

lemma retryer_give_up:
  "fn k = Inl e \<Longrightarrow> \<not> shouldRetry opt k e \<Longrightarrow> retryer opt fn k = Some (Inl e, k + 1)"
  by (subst retryer.simps) simp

lemma retryer_again:
  "fn k = Inl e \<Longrightarrow> shouldRetry opt k e \<Longrightarrow> retryer opt fn k = retryer opt fn (k + 1)"
  by (subst retryer.simps) simp

text \<open>
  The guard of \<^verbatim>\<open>queries.retry\<close> reads \<^verbatim>\<open>error.response.status\<close>. An \<^verbatim>\<open>ApiError\<close> has its
  status at the top and no \<^verbatim>\<open>response\<close>, so the guard never applies to it.
\<close>

lemma queries_retry_apiError:
  "queries_retry failureCount (apiError m s c) = (failureCount < 3)"
  by (simp add: queries_retry_def apiError_def)

text \<open>So a query function that always fails with an \<^verbatim>\<open>ApiError\<close>, of any status, runs four times.\<close>

lemma run_query_apiError_four_times:
  "run_query (\<lambda>k. Inl (apiError m s c)) = Some (Inl (apiError m s c), 4)"
  by (simp add: run_query_def retryer.simps queries_retry_apiError)

text \<open>An error with a \<^verbatim>\<open>response.status\<close> from 400 to 499 is not retried.\<close>

lemma queries_retry_response_4xx:
  assumes "field (props e) ''response'' = JObj [(''status'', JNum (Fin s))]"
    and "400 \<le> s" and "s < 500"
  shows "\<not> queries_retry failureCount e"
proof -
  from assms(1) have n: "\<not> nullish (props e)"
    by (cases "props e") auto
  have t: "truthy (JNum (Fin s))"
    using assms(2) by auto
  show ?thesis
    unfolding queries_retry_def Let_def
    using n t assms by (simp add: js_ge_def)
qed

lemma run_query_response_4xx_once:
  assumes "queryFn 0 = Inl e"
    and "field (props e) ''response'' = JObj [(''status'', JNum (Fin s))]"
    and "400 \<le> s" and "s < 500"
  shows "run_query queryFn = Some (Inl e, 1)"
  unfolding run_query_def
  using retryer_give_up [of queryFn 0 e "Predicate queries_retry"]
    queries_retry_response_4xx [OF assms(2-4)] assms(1)
  by simp

text \<open>
  When the option refuses every retry from the count \<open>m\<close> on, the run ends after at most
  \<open>m + 1\<close> invocations.
\<close>

lemma retryer_bounded:
  assumes "\<And>e. \<not> shouldRetry opt m e"
  shows "k \<le> m \<Longrightarrow> \<exists>r n. retryer opt fn k = Some (r, n) \<and> k + 1 \<le> n \<and> n \<le> m + 1"
proof (induction "m - k" arbitrary: k)
  case 0
  then have km: "k = m" by simp
  show ?case
  proof (cases "fn k")
    case (Inr v)
    with km show ?thesis by (simp add: retryer_success)
  next
    case (Inl e)
    with km assms [of e] show ?thesis by (simp add: retryer_give_up)
  qed
next
  case (Suc d)
  then have lt: "k < m" by simp
  show ?case
  proof (cases "fn k")
    case (Inr v)
    with lt show ?thesis by (simp add: retryer_success)
  next
    case (Inl e)
    show ?thesis
    proof (cases "shouldRetry opt k e")
      case False
      with Inl lt show ?thesis by (simp add: retryer_give_up)
    next
      case True
      from Suc.hyps(2) lt have "d = m - (k + 1)" by simp
      from Suc.hyps(1) [OF this] lt obtain r n where
        "retryer opt fn (k + 1) = Some (r, n)" "k + 1 + 1 \<le> n" "n \<le> m + 1"
        by auto
      with Inl True show ?thesis by (simp add: retryer_again)
    qed
  qed
qed

text \<open>A query function is invoked at most four times, and the query always settles.\<close>

lemma run_query_settles:
  "\<exists>r n. run_query queryFn = Some (r, n) \<and> 1 \<le> n \<and> n \<le> 4"
proof -
  have "\<not> shouldRetry (Predicate queries_retry) 3 e" for e
    by (simp add: queries_retry_def Let_def)
  from retryer_bounded [of "Predicate queries_retry" 3 0 queryFn, OF this]
  show ?thesis by (simp add: run_query_def)
qed

text \<open>
  \<^verbatim>\<open>errorUtils.retry\<close> with its default arguments stops at once only on the statuses
  400, 401 and 403; a 404 goes through all four attempts, with the delays doubling.
\<close>

lemma retry_status_404:
  "retry (\<lambda>k. Inl (apiError ''Request failed with status code 404'' (Fin 404) (JStr ''ERR_BAD_REQUEST'')) :: failure + jsval) 3 1000 =
     (Inl (apiError ''Request failed with status code 404'' (Fin 404) (JStr ''ERR_BAD_REQUEST'')), 4, [1000, 2000, 4000])"
  by (simp add: retry_def apiError_def isAuthError_def isAuthorizationError_def
      isValidationError_def has_status_def)

lemma retry_status_401:
  "retry (\<lambda>k. Inl (apiError ''Session expired. Please login again.'' (Fin 401) (JStr ''AUTH_ERROR'')) :: failure + jsval) 3 1000 =
     (Inl (apiError ''Session expired. Please login again.'' (Fin 401) (JStr ''AUTH_ERROR'')), 1, [])"
  by (simp add: retry_def apiError_def isAuthError_def has_status_def)

text \<open>
  C2: under the retry policy of queries, a query function that always fails with status
  404 should be invoked once, and one that fails with status 500 four times. The second
  holds. The first does not hold for the errors of this program: a query function that
  always fails with the \<^verbatim>\<open>ApiError\<close> of a 404 response is invoked four times, although the
  comment on the guard says that 4xx errors are not retried.
\<close>

theorem C2_status_404_invoked_four_times:
  "run_query (\<lambda>k. Inl (apiError ''Request failed with status code 404'' (Fin 404) (JStr ''ERR_BAD_REQUEST'')) :: failure + jsval) =
     Some (Inl (apiError ''Request failed with status code 404'' (Fin 404) (JStr ''ERR_BAD_REQUEST'')), 4) \<and>
   run_query (\<lambda>k. Inl (apiError ''Request failed with status code 500'' (Fin 500) (JStr ''ERR_BAD_RESPONSE'')) :: failure + jsval) =
     Some (Inl (apiError ''Request failed with status code 500'' (Fin 500) (JStr ''ERR_BAD_RESPONSE'')), 4)"
  by (simp add: run_query_def retryer.simps queries_retry_apiError)

text \<open>
  C4 as stated fails: a mutation whose operation always fails with the error of a 401
  response is run a second time before the error is passed on.
\<close>

theorem C4_authentication_error_counterexample:
  "isAuthError (apiError ''Session expired. Please login again.'' (Fin 401) (JStr ''AUTH_ERROR'')) \<and>
   run_mutation (\<lambda>k. Inl (apiError ''Session expired. Please login again.'' (Fin 401)
                             (JStr ''AUTH_ERROR'')) :: failure + jsval) =
     Some (Inl (apiError ''Session expired. Please login again.'' (Fin 401) (JStr ''AUTH_ERROR'')), 2)"
  by (simp add: run_mutation_def mutations_retry_def retryer.simps isAuthError_def
      has_status_def apiError_def)

text \<open>
  C4, amended: a failing mutation is retried exactly once, whatever the error is. When the
  first invocation succeeds it is the only one; when it fails, with any error, the
  operation is invoked a second time and the outcome of that invocation is the outcome of
  the mutation.
\<close>

theorem C4_mutation_retried_once:
  "(\<forall>v. mutationFn 0 = Inr v \<longrightarrow> run_mutation mutationFn = Some (Inr v, 1)) \<and>
   (\<forall>e. mutationFn 0 = Inl e \<longrightarrow> run_mutation mutationFn = Some (mutationFn 1, 2))"
proof (intro conjI allI impI)
  fix v assume "mutationFn 0 = Inr v"
  then show "run_mutation mutationFn = Some (Inr v, 1)"
    by (simp add: run_mutation_def retryer_success)
next
  fix e assume e: "mutationFn 0 = Inl e"
  have first: "retryer (Times mutations_retry) mutationFn 0 =
      retryer (Times mutations_retry) mutationFn 1"
    using retryer_again [of mutationFn 0 e "Times mutations_retry"] e
    by (simp add: mutations_retry_def)
  have second: "retryer (Times mutations_retry) mutationFn 1 = Some (mutationFn 1, 2)"
  proof (cases "mutationFn 1")
    case (Inr v)
    then show ?thesis
      using retryer_success [of mutationFn 1 v "Times mutations_retry"] by simp
  next
    case (Inl e')
    then show ?thesis
      using retryer_give_up [of mutationFn 1 e' "Times mutations_retry"]
      by (simp add: mutations_retry_def)
  qed
  from first second show "run_mutation mutationFn = Some (mutationFn 1, 2)"
    by (simp add: run_mutation_def)
qed

theorem C4_mutation_retried_once_witness:
  "run_mutation (\<lambda>k. if k = 0 then Inl (apiError ''Bad request'' (Fin 400) JUndefined)
                      else Inr (JStr ''done'')) =
     Some (Inr (JStr ''done''), 2)"
proof -
  have h: "(\<lambda>k. if k = 0 then Inl (apiError ''Bad request'' (Fin 400) JUndefined)
                 else Inr (JStr ''done'')) (0::nat) =
           Inl (apiError ''Bad request'' (Fin 400) JUndefined)"
    by simp
  show ?thesis
    using h C4_mutation_retried_once
      [of "\<lambda>k. if k = 0 then Inl (apiError ''Bad request'' (Fin 400) JUndefined)
                else Inr (JStr ''done'')"]
    by simp
qed

section \<open>Properties of the notifications\<close>

lemma notifications_foldl_remove:
  "notifications (foldl (\<lambda>s t. removeNotification s (removes t)) st ts) =
     filter (\<lambda>n. id' n \<notin> removes ` set ts) (notifications st)"
proof (induction ts arbitrary: st)
  case Nil
  then show ?case by simp
next
  case (Cons t ts)
  have "filter (\<lambda>n. id' n \<notin> removes ` set ts) (filter (\<lambda>n. id' n \<noteq> removes t) (notifications st)) =
      filter (\<lambda>n. id' n \<notin> removes ` set (t # ts)) (notifications st)"
    by (induction "notifications st") auto
  with Cons show ?case by (simp add: removeNotification_def)
qed

text \<open>Advancing the clock removes exactly the notifications whose id a due timer carries.\<close>

lemma notifications_advance:
  "notifications (advanceTimersByTime st ms) =
     filter (\<lambda>n. id' n \<notin> removes ` {t \<in> set (timers st). fires_at t \<le> now st + int ms})
       (notifications st)"
  by (simp add: advanceTimersByTime_def Let_def notifications_foldl_remove)










text \<open>Elapsed time adds up: advancing the clock twice is advancing it once by the sum.\<close>

lemma advanceTimersByTime_twice:
  "advanceTimersByTime (advanceTimersByTime st a) b = advanceTimersByTime st (a + b)"
proof -
  let ?st' = "advanceTimersByTime st a"
  have n: "now ?st' = now st + int a"
    by (simp add: advanceTimersByTime_def Let_def)
  have t: "timers ?st' = filter (\<lambda>t. \<not> fires_at t \<le> now st + int a) (timers st)"
    by (simp add: advanceTimersByTime_def Let_def)
  have now_eq: "now (advanceTimersByTime ?st' b) = now (advanceTimersByTime st (a + b))"
    by (simp add: advanceTimersByTime_def Let_def)
  have timers_eq: "timers (advanceTimersByTime ?st' b) = timers (advanceTimersByTime st (a + b))"
  proof -
    have "filter (\<lambda>t. \<not> fires_at t \<le> now st + int a + int b)
            (filter (\<lambda>t. \<not> fires_at t \<le> now st + int a) (timers st)) =
          filter (\<lambda>t. \<not> fires_at t \<le> now st + int (a + b)) (timers st)"
      unfolding filter_filter by (intro filter_cong refl) auto
    then show ?thesis
      by (simp add: advanceTimersByTime_def Let_def)
  qed
  have ids: "removes ` {t \<in> set (timers ?st'). fires_at t \<le> now ?st' + int b} \<union>
             removes ` {t \<in> set (timers st). fires_at t \<le> now st + int a} =
             removes ` {t \<in> set (timers st). fires_at t \<le> now st + int (a + b)}"
    unfolding n t by auto
  have "notifications (advanceTimersByTime ?st' b) =
      filter (\<lambda>n. id' n \<notin> removes ` {t \<in> set (timers ?st'). fires_at t \<le> now ?st' + int b} \<union>
                            removes ` {t \<in> set (timers st). fires_at t \<le> now st + int a})
        (notifications st)"
    unfolding notifications_advance [of ?st' b] notifications_advance [of st a] filter_filter
    by (intro filter_cong refl) auto
  then have notifications_eq:
    "notifications (advanceTimersByTime ?st' b) = notifications (advanceTimersByTime st (a + b))"
    unfolding ids notifications_advance [of st "a + b"] .
  have more_eq: "ui_store.more (advanceTimersByTime ?st' b) = ui_store.more (advanceTimersByTime st (a + b))"
    by simp
  from now_eq timers_eq notifications_eq show ?thesis
    by (intro ui_store.equality) simp_all
qed

section \<open>Properties of the response normalizers\<close>

lemma js_String_or_empty: "js_String (js_or (JStr s) (JStr [])) = s"
  by (simp add: js_or_def)

lemma js_String_or_nonempty: "s \<noteq> [] \<Longrightarrow> js_String (js_or (JStr s) v) = s"
  by (simp add: js_or_def)

lemma js_Number_or_truthy: "truthy (JNum n) \<Longrightarrow> js_Number (js_or (JNum n) v) = n"
  by (simp add: js_or_def)

lemma transformUser_nullish: "nullish u \<Longrightarrow> transformUser u = Inl TypeError"
  by (simp add: transformUser_def)

lemma transformUser_result:
  "\<not> nullish u \<Longrightarrow> transformUser u = Inr (JObj
     [(''id'', JStr (js_String (field u ''id''))),
      (''name'', JStr (js_String (js_or (field u ''name'') (JStr [])))),
      (''email'', JStr (js_String (js_or (field u ''email'') (JStr [])))),
      (''role'', if field u ''role'' = JStr ''DOCTOR'' then JStr ''DOCTOR'' else JStr ''PATIENT''),
      (''photo_url'',
         if truthy (field u ''photo_url'') then JStr (js_String (field u ''photo_url''))
         else JUndefined)])"
  by (simp add: transformUser_def)



subsection \<open>Paginated responses\<close>

lemma transformPaginatedResponse_nullish:
  "nullish r \<Longrightarrow> transformPaginatedResponse r f = Inl TypeError"
  by (simp add: transformPaginatedResponse_def)


lemma pagination_never_nullish: "\<not> nullish (js_or v (JObj []))"
  by (cases v) (auto simp: js_or_def)





subsection \<open>Idempotence\<close>

lemma transformUser_idempotent:
  assumes "transformUser x = Inr y" and "field y ''photo_url'' \<noteq> JStr []"
  shows "transformUser y = Inr y"
proof -
  from assms(1) have "\<not> nullish x"
    by (auto simp: transformUser_def split: if_splits)
  with assms show ?thesis
    by (auto simp: transformUser_result js_String_or_empty split: if_splits)
qed

lemma transformDoctor_idempotent:
  assumes "transformDoctor x = Inr y" and "field y ''photo_url'' \<noteq> JStr []"
  shows "transformDoctor y = Inr y"
proof -
  from assms(1) have "\<not> nullish x"
    by (auto simp: transformDoctor_def transformUser_def split: if_splits)
  with assms show ?thesis
    by (auto simp: transformDoctor_def transformUser_result js_String_or_empty split: if_splits)
qed

lemma transformPatient_idempotent:
  assumes "transformPatient x = Inr y" and "field y ''photo_url'' \<noteq> JStr []"
  shows "transformPatient y = Inr y"
proof -
  from assms(1) have "\<not> nullish x"
    by (auto simp: transformPatient_def transformUser_def split: if_splits)
  with assms show ?thesis
    by (auto simp: transformPatient_def transformUser_result js_String_or_empty split: if_splits)
qed

lemma transformDoctor_truthy: "transformDoctor x = Inr y \<Longrightarrow> truthy y"
  by (auto simp: transformDoctor_def split: sum.splits)

lemma transformPatient_truthy: "transformPatient x = Inr y \<Longrightarrow> truthy y"
  by (auto simp: transformPatient_def split: sum.splits)

lemma transformAppointment_idempotent:
  assumes y: "transformAppointment c u x = Inr y"
    and ids: "field y ''doctorId'' \<noteq> JStr []" "field y ''patientId'' \<noteq> JStr []"
    and times: "field y ''createdAt'' \<noteq> JStr []" "field y ''updatedAt'' \<noteq> JStr []"
    and photos: "field (field y ''doctor'') ''photo_url'' \<noteq> JStr []"
      "field (field y ''patient'') ''photo_url'' \<noteq> JStr []"
  shows "transformAppointment c' u' y = Inr y"
proof -
  from y have x: "\<not> nullish x"
    by (auto simp: transformAppointment_def split: if_splits)
  from y x obtain d where
    d: "(if truthy (field x ''doctor'') then transformDoctor (field x ''doctor'')
         else Inr JUndefined) = Inr d"
    by (cases "if truthy (field x ''doctor'') then transformDoctor (field x ''doctor'')
         else Inr JUndefined") (auto simp: transformAppointment_def)
  from y x d obtain p where
    p: "(if truthy (field x ''patient'') then transformPatient (field x ''patient'')
         else Inr JUndefined) = Inr p"
    by (cases "if truthy (field x ''patient'') then transformPatient (field x ''patient'')
         else Inr JUndefined") (auto simp: transformAppointment_def)
  define s1 where "s1 = js_String (js_or (field x ''doctorId'') (field x ''doctor_id''))"
  define s2 where "s2 = js_String (js_or (field x ''patientId'') (field x ''patient_id''))"
  define s3 where "s3 = js_String
      (js_or (js_or (field x ''createdAt'') (field x ''created_at'')) (JStr c))"
  define s4 where "s4 = js_String
      (js_or (js_or (field x ''updatedAt'') (field x ''updated_at'')) (JStr u))"
  define st where "st =
      (if field x ''status'' = JStr ''COMPLETED'' then JStr ''COMPLETED''
       else if field x ''status'' = JStr ''CANCELLED'' then JStr ''CANCELLED''
       else JStr ''PENDING'')"
  have yeq: "y = JObj
      [(''id'', JStr (js_String (field x ''id''))), (''doctorId'', JStr s1),
       (''patientId'', JStr s2), (''date'', JStr (js_String (field x ''date''))),
       (''status'', st), (''doctor'', d), (''patient'', p),
       (''createdAt'', JStr s3), (''updatedAt'', JStr s4)]"
    using y x d p unfolding transformAppointment_def s1_def s2_def s3_def s4_def st_def
    by simp
  have ne: "s1 \<noteq> []" "s2 \<noteq> []" "s3 \<noteq> []" "s4 \<noteq> []"
    using ids times unfolding yeq by simp_all
  have st: "(if st = JStr ''COMPLETED'' then JStr ''COMPLETED''
       else if st = JStr ''CANCELLED'' then JStr ''CANCELLED'' else JStr ''PENDING'') = st"
    unfolding st_def by simp
  have d': "(if truthy d then transformDoctor d else Inr JUndefined) = Inr d"
  proof (cases "truthy (field x ''doctor'')")
    case True
    with d have td: "transformDoctor (field x ''doctor'') = Inr d" by simp
    moreover from photos(1) have "field d ''photo_url'' \<noteq> JStr []"
      unfolding yeq by simp
    ultimately have "transformDoctor d = Inr d"
      by (rule transformDoctor_idempotent)
    with transformDoctor_truthy [OF td] show ?thesis by simp
  next
    case False
    with d show ?thesis by auto
  qed
  have p': "(if truthy p then transformPatient p else Inr JUndefined) = Inr p"
  proof (cases "truthy (field x ''patient'')")
    case True
    with p have tp: "transformPatient (field x ''patient'') = Inr p" by simp
    moreover from photos(2) have "field p ''photo_url'' \<noteq> JStr []"
      unfolding yeq by simp
    ultimately have "transformPatient p = Inr p"
      by (rule transformPatient_idempotent)
    with transformPatient_truthy [OF tp] show ?thesis by simp
  next
    case False
    with p show ?thesis by auto
  qed
  have fields: "field y ''id'' = JStr (js_String (field x ''id''))"
    "field y ''doctorId'' = JStr s1" "field y ''patientId'' = JStr s2"
    "field y ''date'' = JStr (js_String (field x ''date''))" "field y ''status'' = st"
    "field y ''doctor'' = d" "field y ''patient'' = p"
    "field y ''createdAt'' = JStr s3" "field y ''updatedAt'' = JStr s4"
    unfolding yeq by simp_all
  have "\<not> nullish y"
    unfolding yeq by simp
  then have "transformAppointment c' u' y = Inr (JObj
      [(''id'', JStr (js_String (field x ''id''))), (''doctorId'', JStr s1),
       (''patientId'', JStr s2), (''date'', JStr (js_String (field x ''date''))),
       (''status'', st), (''doctor'', d), (''patient'', p),
       (''createdAt'', JStr s3), (''updatedAt'', JStr s4)])"
    unfolding transformAppointment_def fields
    using ne st d' p' by (simp add: js_String_or_nonempty js_or_def)
  then show ?thesis
    unfolding yeq .
qed

lemma map_items_fixed: "\<forall>v \<in> set xs. f v = Inr v \<Longrightarrow> map_items f xs = Inr xs"
  by (induction xs) simp_all

lemma transformPaginatedResponse_idempotent:
  assumes y: "transformPaginatedResponse x f = Inr y"
    and items: "\<forall>v \<in> set (elements (field y ''data'')). f v = Inr v"
    and page: "truthy (field (field y ''pagination'') ''page'')"
    and limit: "truthy (field (field y ''pagination'') ''limit'')"
    and total: "field (field y ''pagination'') ''total'' \<noteq> JNum NaN"
    and pages: "truthy (field (field y ''pagination'') ''totalPages'') \<or>
      field (field y ''pagination'') ''totalPages'' =
        JNum (js_ceil (js_div (js_Number (field (field y ''pagination'') ''total''))
                              (js_Number (field (field y ''pagination'') ''limit''))))"
  shows "transformPaginatedResponse y f = Inr y"
proof -
  from y have x: "\<not> nullish x"
    by (auto simp: transformPaginatedResponse_def split: if_splits)
  from y x obtain ys n1 n2 n3 n4 where
    yeq: "y = JObj [(''data'', JArr ys),
       (''pagination'', JObj [(''page'', JNum n1), (''limit'', JNum n2),
          (''total'', JNum n3), (''totalPages'', JNum n4)])]"
    by (auto simp: transformPaginatedResponse_def Let_def split: sum.splits)
  have ys: "map_items f ys = Inr ys"
    using items unfolding yeq by (intro map_items_fixed) simp
  have n1: "js_Number (js_or (JNum n1) (JNum (Fin 1))) = n1"
    using page unfolding yeq by (simp add: js_or_def)
  have n2: "js_Number (js_or (JNum n2) (JNum (Fin 10))) = n2"
    using limit unfolding yeq by (simp add: js_or_def)
  have n3: "js_Number (js_or (JNum n3) (JNum (Fin 0))) = n3"
    using total unfolding yeq by (auto simp: js_or_def)
  have n4: "js_Number (js_or (JNum n4) (JNum (js_ceil (js_div n3 n2)))) = n4"
    using pages unfolding yeq by (auto simp: js_or_def)
  define pg where "pg = JObj [(''page'', JNum n1), (''limit'', JNum n2),
      (''total'', JNum n3), (''totalPages'', JNum n4)]"
  have fields: "field y ''data'' = JArr ys" "js_or (field y ''pagination'') (JObj []) = pg"
    unfolding yeq pg_def by (simp_all add: js_or_def)
  have pg: "field pg ''page'' = JNum n1" "field pg ''limit'' = JNum n2"
    "field pg ''total'' = JNum n3" "field pg ''totalPages'' = JNum n4"
    unfolding pg_def by simp_all
  have "\<not> nullish y"
    unfolding yeq by simp
  then have "transformPaginatedResponse y f = Inr (JObj [(''data'', JArr ys),
       (''pagination'', JObj [(''page'', JNum n1), (''limit'', JNum n2),
          (''total'', JNum n3), (''totalPages'', JNum n4)])])"
    unfolding transformPaginatedResponse_def Let_def fields pg
    using ys n1 n2 n3 n4 by simp
  then show ?thesis
    unfolding yeq .
qed

text \<open>
  C6 as stated fails for payloads that a normalizer maps to a value it then treats as
  missing. An appointment with the empty string as \<^verbatim>\<open>doctor_id\<close> gets the \<^verbatim>\<open>doctorId\<close> \<^verbatim>\<open>''\<close>,
  which the second application turns into \<^verbatim>\<open>'undefined'\<close>; a user with the empty array as
  \<^verbatim>\<open>photo_url\<close> gets the \<^verbatim>\<open>photo_url\<close> \<^verbatim>\<open>''\<close> and then \<^verbatim>\<open>undefined\<close>; a page given as the text
  \<^verbatim>\<open>'0'\<close> becomes the number 0 and then 1.
\<close>

theorem C6_not_idempotent_counterexample:
  "transformAppointment ''2024-01-01T00:00:00.000Z'' ''2024-01-01T00:00:00.000Z''
     (JObj [(''id'', JStr ''1''), (''doctor_id'', JStr ''''), (''patient_id'', JStr ''7''),
            (''date'', JStr ''2024-01-15''), (''status'', JStr ''PENDING''),
            (''created_at'', JStr ''2024-01-01''), (''updated_at'', JStr ''2024-01-01'')]) =
   Inr (JObj [(''id'', JStr ''1''), (''doctorId'', JStr ''''), (''patientId'', JStr ''7''),
              (''date'', JStr ''2024-01-15''), (''status'', JStr ''PENDING''),
              (''doctor'', JUndefined), (''patient'', JUndefined),
              (''createdAt'', JStr ''2024-01-01''), (''updatedAt'', JStr ''2024-01-01'')]) \<and>
   transformAppointment ''2024-01-01T00:00:00.000Z'' ''2024-01-01T00:00:00.000Z''
     (JObj [(''id'', JStr ''1''), (''doctorId'', JStr ''''), (''patientId'', JStr ''7''),
            (''date'', JStr ''2024-01-15''), (''status'', JStr ''PENDING''),
            (''doctor'', JUndefined), (''patient'', JUndefined),
            (''createdAt'', JStr ''2024-01-01''), (''updatedAt'', JStr ''2024-01-01'')]) =
   Inr (JObj [(''id'', JStr ''1''), (''doctorId'', JStr ''undefined''), (''patientId'', JStr ''7''),
              (''date'', JStr ''2024-01-15''), (''status'', JStr ''PENDING''),
              (''doctor'', JUndefined), (''patient'', JUndefined),
              (''createdAt'', JStr ''2024-01-01''), (''updatedAt'', JStr ''2024-01-01'')]) \<and>
   transformUser (JObj [(''id'', JStr ''1''), (''photo_url'', JArr [])]) =
   Inr (JObj [(''id'', JStr ''1''), (''name'', JStr ''''), (''email'', JStr ''''),
              (''role'', JStr ''PATIENT''), (''photo_url'', JStr '''')]) \<and>
   transformUser (JObj [(''id'', JStr ''1''), (''name'', JStr ''''), (''email'', JStr ''''),
                        (''role'', JStr ''PATIENT''), (''photo_url'', JStr '''')]) =
   Inr (JObj [(''id'', JStr ''1''), (''name'', JStr ''''), (''email'', JStr ''''),
              (''role'', JStr ''PATIENT''), (''photo_url'', JUndefined)]) \<and>
   transformPaginatedResponse
     (JObj [(''data'', JArr []),
            (''pagination'', JObj [(''page'', JStr ''0''), (''limit'', JNum (Fin 10)),
               (''total'', JNum (Fin 25)), (''totalPages'', JNum (Fin 3))])]) transformUser =
   Inr (JObj [(''data'', JArr []),
              (''pagination'', JObj [(''page'', JNum (Fin 0)), (''limit'', JNum (Fin 10)),
                 (''total'', JNum (Fin 25)), (''totalPages'', JNum (Fin 3))])]) \<and>
   transformPaginatedResponse
     (JObj [(''data'', JArr []),
            (''pagination'', JObj [(''page'', JNum (Fin 0)), (''limit'', JNum (Fin 10)),
               (''total'', JNum (Fin 25)), (''totalPages'', JNum (Fin 3))])]) transformUser =
   Inr (JObj [(''data'', JArr []),
              (''pagination'', JObj [(''page'', JNum (Fin 1)), (''limit'', JNum (Fin 10)),
                 (''total'', JNum (Fin 25)), (''totalPages'', JNum (Fin 3))])])"
  by code_simp

text \<open>
  C6, amended: applying a normalizer to its own output \<open>y\<close> yields \<open>y\<close> again whenever
  \<open>y\<close> holds no value that the normalizer reads as missing:
  for \<^verbatim>\<open>transformUser\<close>, the \<^verbatim>\<open>photo_url\<close> of \<open>y\<close> is not the empty string;
  for \<^verbatim>\<open>transformAppointment\<close> (at any two times), \<^verbatim>\<open>doctorId\<close>, \<^verbatim>\<open>patientId\<close>, \<^verbatim>\<open>createdAt\<close> and
  \<^verbatim>\<open>updatedAt\<close> of \<open>y\<close> are not the empty string, nor is the \<^verbatim>\<open>photo_url\<close> of its doctor and
  of its patient;
  for \<^verbatim>\<open>transformPaginatedResponse\<close> with an item transformer that leaves the items of \<open>y\<close>
  as they are, \<^verbatim>\<open>page\<close> and \<^verbatim>\<open>limit\<close> of \<open>y\<close> are neither 0 nor \<open>NaN\<close>, \<^verbatim>\<open>total\<close> is not \<open>NaN\<close>, and
  \<^verbatim>\<open>totalPages\<close> is neither 0 nor \<open>NaN\<close> or equals \<open>\<lceil>total / limit\<rceil>\<close>.
\<close>

theorem C6_idempotent_on_output:
  "(transformUser x1 = Inr y1 \<and> field y1 ''photo_url'' \<noteq> JStr [] \<longrightarrow>
      transformUser y1 = Inr y1) \<and>
   (transformAppointment c u x2 = Inr y2 \<and>
    field y2 ''doctorId'' \<noteq> JStr [] \<and> field y2 ''patientId'' \<noteq> JStr [] \<and>
    field y2 ''createdAt'' \<noteq> JStr [] \<and> field y2 ''updatedAt'' \<noteq> JStr [] \<and>
    field (field y2 ''doctor'') ''photo_url'' \<noteq> JStr [] \<and>
    field (field y2 ''patient'') ''photo_url'' \<noteq> JStr [] \<longrightarrow>
      transformAppointment c' u' y2 = Inr y2) \<and>
   (transformPaginatedResponse x3 f = Inr y3 \<and>
    (\<forall>v \<in> set (elements (field y3 ''data'')). f v = Inr v) \<and>
    truthy (field (field y3 ''pagination'') ''page'') \<and>
    truthy (field (field y3 ''pagination'') ''limit'') \<and>
    field (field y3 ''pagination'') ''total'' \<noteq> JNum NaN \<and>
    (truthy (field (field y3 ''pagination'') ''totalPages'') \<or>
     field (field y3 ''pagination'') ''totalPages'' =
       JNum (js_ceil (js_div (js_Number (field (field y3 ''pagination'') ''total''))
                             (js_Number (field (field y3 ''pagination'') ''limit''))))) \<longrightarrow>
      transformPaginatedResponse y3 f = Inr y3)"
proof (intro conjI impI)
  assume "transformUser x1 = Inr y1 \<and> field y1 ''photo_url'' \<noteq> JStr []"
  then show "transformUser y1 = Inr y1"
    using transformUser_idempotent by blast
next
  assume "transformAppointment c u x2 = Inr y2 \<and>
    field y2 ''doctorId'' \<noteq> JStr [] \<and> field y2 ''patientId'' \<noteq> JStr [] \<and>
    field y2 ''createdAt'' \<noteq> JStr [] \<and> field y2 ''updatedAt'' \<noteq> JStr [] \<and>
    field (field y2 ''doctor'') ''photo_url'' \<noteq> JStr [] \<and>
    field (field y2 ''patient'') ''photo_url'' \<noteq> JStr []"
  then show "transformAppointment c' u' y2 = Inr y2"
    using transformAppointment_idempotent [of c u x2 y2 c' u'] by blast
next
  assume "transformPaginatedResponse x3 f = Inr y3 \<and>
    (\<forall>v \<in> set (elements (field y3 ''data'')). f v = Inr v) \<and>
    truthy (field (field y3 ''pagination'') ''page'') \<and>
    truthy (field (field y3 ''pagination'') ''limit'') \<and>
    field (field y3 ''pagination'') ''total'' \<noteq> JNum NaN \<and>
    (truthy (field (field y3 ''pagination'') ''totalPages'') \<or>
     field (field y3 ''pagination'') ''totalPages'' =
       JNum (js_ceil (js_div (js_Number (field (field y3 ''pagination'') ''total''))
                             (js_Number (field (field y3 ''pagination'') ''limit'')))))"
  then show "transformPaginatedResponse y3 f = Inr y3"
    using transformPaginatedResponse_idempotent [of x3 f y3] by blast
qed

theorem C6_idempotent_on_output_witness:
  "transformUser (JObj [(''id'', JStr ''3''), (''name'', JStr ''Dr. Smith''), (''email'', JStr ''''),
       (''role'', JStr ''DOCTOR''), (''photo_url'', JUndefined)]) =
     Inr (JObj [(''id'', JStr ''3''), (''name'', JStr ''Dr. Smith''), (''email'', JStr ''''),
       (''role'', JStr ''DOCTOR''), (''photo_url'', JUndefined)]) \<and>
   transformAppointment ''t3'' ''t4''
     (JObj [(''id'', JStr ''1''), (''doctorId'', JStr ''3''), (''patientId'', JStr ''7''),
        (''date'', JStr ''2024-01-15''), (''status'', JStr ''COMPLETED''),
        (''doctor'', JObj [(''id'', JStr ''3''), (''name'', JStr ''Dr. Smith''),
           (''email'', JStr ''''), (''role'', JStr ''DOCTOR''), (''photo_url'', JUndefined),
           (''specialization'', JStr ''Cardiology'')]),
        (''patient'', JUndefined), (''createdAt'', JStr ''t1''), (''updatedAt'', JStr ''t2'')]) =
     Inr (JObj [(''id'', JStr ''1''), (''doctorId'', JStr ''3''), (''patientId'', JStr ''7''),
        (''date'', JStr ''2024-01-15''), (''status'', JStr ''COMPLETED''),
        (''doctor'', JObj [(''id'', JStr ''3''), (''name'', JStr ''Dr. Smith''),
           (''email'', JStr ''''), (''role'', JStr ''DOCTOR''), (''photo_url'', JUndefined),
           (''specialization'', JStr ''Cardiology'')]),
        (''patient'', JUndefined), (''createdAt'', JStr ''t1''), (''updatedAt'', JStr ''t2'')]) \<and>
   transformPaginatedResponse
     (JObj [(''data'', JArr [JObj [(''id'', JStr ''3''), (''name'', JStr ''Dr. Smith''),
               (''email'', JStr ''''), (''role'', JStr ''DOCTOR''), (''photo_url'', JUndefined)]]),
            (''pagination'', JObj [(''page'', JNum (Fin 2)), (''limit'', JNum (Fin 10)),
               (''total'', JNum (Fin 25)), (''totalPages'', JNum (Fin 3))])]) transformUser =
     Inr (JObj [(''data'', JArr [JObj [(''id'', JStr ''3''), (''name'', JStr ''Dr. Smith''),
               (''email'', JStr ''''), (''role'', JStr ''DOCTOR''), (''photo_url'', JUndefined)]]),
            (''pagination'', JObj [(''page'', JNum (Fin 2)), (''limit'', JNum (Fin 10)),
               (''total'', JNum (Fin 25)), (''totalPages'', JNum (Fin 3))])])"
proof -
  let ?x1 = "JObj [(''id'', JNum (Fin 3)), (''name'', JStr ''Dr. Smith''), (''role'', JStr ''DOCTOR'')]"
  let ?y1 = "JObj [(''id'', JStr ''3''), (''name'', JStr ''Dr. Smith''), (''email'', JStr ''''),
       (''role'', JStr ''DOCTOR''), (''photo_url'', JUndefined)]"
  let ?x2 = "JObj [(''id'', JNum (Fin 1)), (''doctor_id'', JNum (Fin 3)),
       (''patient_id'', JNum (Fin 7)), (''date'', JStr ''2024-01-15''),
       (''status'', JStr ''COMPLETED''),
       (''doctor'', JObj [(''id'', JNum (Fin 3)), (''name'', JStr ''Dr. Smith''),
          (''specialization'', JStr ''Cardiology'')])]"
  let ?y2 = "JObj [(''id'', JStr ''1''), (''doctorId'', JStr ''3''), (''patientId'', JStr ''7''),
        (''date'', JStr ''2024-01-15''), (''status'', JStr ''COMPLETED''),
        (''doctor'', JObj [(''id'', JStr ''3''), (''name'', JStr ''Dr. Smith''),
           (''email'', JStr ''''), (''role'', JStr ''DOCTOR''), (''photo_url'', JUndefined),
           (''specialization'', JStr ''Cardiology'')]),
        (''patient'', JUndefined), (''createdAt'', JStr ''t1''), (''updatedAt'', JStr ''t2'')]"
  let ?x3 = "JObj [(''data'', JArr [?x1]),
       (''pagination'', JObj [(''page'', JStr ''2''), (''limit'', JNum (Fin 10)),
          (''total'', JNum (Fin 25))])]"
  let ?y3 = "JObj [(''data'', JArr [?y1]),
       (''pagination'', JObj [(''page'', JNum (Fin 2)), (''limit'', JNum (Fin 10)),
          (''total'', JNum (Fin 25)), (''totalPages'', JNum (Fin 3))])]"
  have h1: "transformUser ?x1 = Inr ?y1 \<and> field ?y1 ''photo_url'' \<noteq> JStr []"
    by code_simp
  have h2: "transformAppointment ''t1'' ''t2'' ?x2 = Inr ?y2 \<and>
    field ?y2 ''doctorId'' \<noteq> JStr [] \<and> field ?y2 ''patientId'' \<noteq> JStr [] \<and>
    field ?y2 ''createdAt'' \<noteq> JStr [] \<and> field ?y2 ''updatedAt'' \<noteq> JStr [] \<and>
    field (field ?y2 ''doctor'') ''photo_url'' \<noteq> JStr [] \<and>
    field (field ?y2 ''patient'') ''photo_url'' \<noteq> JStr []"
    by code_simp
  have h3: "transformPaginatedResponse ?x3 transformUser = Inr ?y3"
    by code_simp
  have h4: "\<forall>v \<in> set (elements (field ?y3 ''data'')).
      transformUser v = Inr v"
    using h1 C6_idempotent_on_output [of ?x1 ?y1] by simp
  have h5: "truthy (field (field ?y3 ''pagination'') ''page'') \<and>
    truthy (field (field ?y3 ''pagination'') ''limit'') \<and>
    field (field ?y3 ''pagination'') ''total'' \<noteq> JNum NaN \<and>
    truthy (field (field ?y3 ''pagination'') ''totalPages'')"
    by simp
  from C6_idempotent_on_output
    [of ?x1 ?y1 "''t1''" "''t2''" ?x2 ?y2 "''t3''" "''t4''" ?x3 transformUser ?y3]
    h1 h2 h3 h4 h5
  show ?thesis by blast
qed

section \<open>Properties of the optimistic update\<close>

subsection \<open>Insertion-ordered maps\<close>

lemma map_of_assign: "map_of (assign kvs k v) = (map_of kvs)(k \<mapsto> v)"
  by (induction kvs) auto

lemma keys_assign:
  "k \<in> set (map fst kvs) \<Longrightarrow> map fst (assign kvs k v) = map fst kvs"
  by (induction kvs) force+

text \<open>Two maps with the same keys in the same order and the same values are the same list.\<close>

lemma same_keys_same_values:
  assumes "distinct (map fst xs)" and "map fst ys = map fst xs" and "map_of ys = map_of xs"
  shows "ys = xs"
  using assms
proof (induction xs arbitrary: ys)
  case Nil
  then show ?case by simp
next
  case (Cons x xs)
  then obtain y ys' where ys: "ys = y # ys'"
    by (cases ys) auto
  obtain k v where x: "x = (k, v)" by (cases x)
  from Cons.prems(2) ys x obtain w where y: "y = (k, w)"
    by (cases y) auto
  from Cons.prems(3) have "map_of ys k = map_of (x # xs) k" by simp
  with ys x y have vw: "w = v" by simp
  have fst_eq: "map fst ys' = map fst xs"
    using Cons.prems(2) ys by simp
  have "map_of ys' = map_of xs"
  proof
    fix j
    show "map_of ys' j = map_of xs j"
    proof (cases "j = k")
      case True
      from Cons.prems(1) x have "k \<notin> set (map fst xs)" by simp
      with fst_eq True show ?thesis
        by (metis map_of_eq_None_iff set_map)
    next
      case False
      from Cons.prems(3) have "map_of ys j = map_of (x # xs) j" by simp
      with False ys x y show ?thesis by simp
    qed
  qed
  with Cons.IH [of ys'] Cons.prems(1) fst_eq have "ys' = xs" by simp
  with ys x y vw show ?case by simp
qed

subsection \<open>The cache primitives\<close>

lemma map_of_setQueryData:
  "map_of (setQueryData cache k d) = (if d = JUndefined then map_of cache else (map_of cache)(k \<mapsto> d))"
  by (simp add: setQueryData_def map_of_assign)

lemma keys_setQueryData:
  "k \<in> set (map fst cache) \<Longrightarrow> map fst (setQueryData cache k d) = map fst cache"
  by (simp add: setQueryData_def keys_assign)

lemma getQueriesData_subset: "set (getQueriesData cache p) \<subseteq> set cache"
  by (auto simp: getQueriesData_def)

lemma getQueriesData_matches:
  "(k, d) \<in> set (getQueriesData cache p) \<Longrightarrow> partialMatchKey k p"
  by (auto simp: getQueriesData_def)

lemma getQueriesData_complete:
  "(k, d) \<in> set cache \<Longrightarrow> partialMatchKey k p \<Longrightarrow> (k, d) \<in> set (getQueriesData cache p)"
  by (auto simp: getQueriesData_def)

lemma getQueriesData_distinct:
  "distinct (map fst cache) \<Longrightarrow> distinct (map fst (getQueriesData cache p))"
  by (simp add: getQueriesData_def distinct_map_filter)

lemma patient_not_doctor:
  "partialMatchKey k [''appointments'', ''patient''] \<Longrightarrow>
   \<not> partialMatchKey k [''appointments'', ''doctor'']"
  by (auto simp: partialMatchKey_def)

lemma detail_not_patient:
  "\<not> partialMatchKey (appointmentDetails i) [''appointments'', ''patient'']"
  by (simp add: partialMatchKey_def appointmentDetails_def)

lemma detail_not_doctor:
  "\<not> partialMatchKey (appointmentDetails i) [''appointments'', ''doctor'']"
  by (simp add: partialMatchKey_def appointmentDetails_def)

subsection \<open>The optimistic writes\<close>

lemma optimistic_data_truthy:
  "optimistic_data sd t d = Inr (Some d') \<Longrightarrow> truthy d \<and> d' \<noteq> JUndefined"
  by (auto simp: optimistic_data_def split: if_splits sum.splits)

text \<open>The writes of a loop keep the queries of the cache and their order.\<close>

lemma update_lists_keys:
  "set (map fst snapshot) \<subseteq> set (map fst cache) \<Longrightarrow>
   map fst (fst (update_lists sd t cache snapshot)) = map fst cache"
proof (induction snapshot arbitrary: cache)
  case Nil
  then show ?case by simp
next
  case (Cons entry snapshot)
  obtain k d where entry: "entry = (k, d)" by (cases entry)
  show ?case
  proof (cases "optimistic_data sd t d")
    case (Inl e)
    with entry show ?thesis by simp
  next
    case (Inr r)
    show ?thesis
    proof (cases r)
      case None
      with Inr entry Cons show ?thesis by simp
    next
      case (Some d')
      from Cons.prems entry have "k \<in> set (map fst cache)" by simp
      then have keys: "map fst (setQueryData cache k d') = map fst cache"
        by (rule keys_setQueryData)
      with Cons.prems have "set (map fst snapshot) \<subseteq> set (map fst (setQueryData cache k d'))"
        by simp
      from Cons.IH [OF this] keys Some Inr entry show ?thesis by simp
    qed
  qed
qed

text \<open>A loop writes only to keys whose snapshot data is truthy.\<close>

lemma update_lists_untouched:
  "\<forall>d. (k, d) \<in> set snapshot \<longrightarrow> \<not> truthy d \<Longrightarrow>
   map_of (fst (update_lists sd t cache snapshot)) k = map_of cache k"
proof (induction snapshot arbitrary: cache)
  case Nil
  then show ?case by simp
next
  case (Cons entry snapshot)
  obtain j d where entry: "entry = (j, d)" by (cases entry)
  from Cons.prems have rest: "\<forall>d. (k, d) \<in> set snapshot \<longrightarrow> \<not> truthy d" by simp
  show ?case
  proof (cases "optimistic_data sd t d")
    case (Inl e)
    with entry show ?thesis by simp
  next
    case (Inr r)
    show ?thesis
    proof (cases r)
      case None
      with Inr entry Cons.IH [OF rest] show ?thesis by simp
    next
      case (Some d')
      with Inr optimistic_data_truthy have "truthy d" by blast
      with Cons.prems entry have "j \<noteq> k" by auto
      then have "map_of (setQueryData cache j d') k = map_of cache k"
        by (simp add: map_of_setQueryData)
      with Cons.IH [OF rest, of "setQueryData cache j d'"] Some Inr entry show ?thesis by simp
    qed
  qed
qed

subsection \<open>The rollback\<close>

lemma restore_Cons:
  "restore cache ((k, d) # snapshot) = restore (setQueryData cache k d) snapshot"
  by (simp add: restore_def)

lemma restore_keys:
  "set (map fst snapshot) \<subseteq> set (map fst cache) \<Longrightarrow> map fst (restore cache snapshot) = map fst cache"
proof (induction snapshot arbitrary: cache)
  case Nil
  then show ?case by (simp add: restore_def)
next
  case (Cons entry snapshot)
  obtain k d where entry: "entry = (k, d)" by (cases entry)
  from Cons.prems entry have "k \<in> set (map fst cache)" by simp
  then have keys: "map fst (setQueryData cache k d) = map fst cache"
    by (rule keys_setQueryData)
  with Cons.prems have "set (map fst snapshot) \<subseteq> set (map fst (setQueryData cache k d))"
    by simp
  from Cons.IH [OF this] keys entry show ?case by (simp add: restore_Cons)
qed

text \<open>The rollback writes only to keys whose snapshot data is not \<^verbatim>\<open>undefined\<close>.\<close>

lemma restore_untouched:
  "\<forall>d. (k, d) \<in> set snapshot \<longrightarrow> d = JUndefined \<Longrightarrow>
   map_of (restore cache snapshot) k = map_of cache k"
proof (induction snapshot arbitrary: cache)
  case Nil
  then show ?case by (simp add: restore_def)
next
  case (Cons entry snapshot)
  obtain j d where entry: "entry = (j, d)" by (cases entry)
  from Cons.prems have rest: "\<forall>d. (k, d) \<in> set snapshot \<longrightarrow> d = JUndefined" by simp
  from Cons.prems entry have "j = k \<longrightarrow> d = JUndefined" by simp
  then have "map_of (setQueryData cache j d) k = map_of cache k"
    by (auto simp: map_of_setQueryData)
  with Cons.IH [OF rest, of "setQueryData cache j d"] entry show ?case
    by (simp add: restore_Cons)
qed

text \<open>A key of the snapshot with data gets that data back, whatever the cache holds.\<close>

lemma restore_written:
  "distinct (map fst snapshot) \<Longrightarrow> (k, d) \<in> set snapshot \<Longrightarrow> d \<noteq> JUndefined \<Longrightarrow>
   map_of (restore cache snapshot) k = Some d"
proof (induction snapshot arbitrary: cache)
  case Nil
  then show ?case by simp
next
  case (Cons entry snapshot)
  obtain j c where entry: "entry = (j, c)" by (cases entry)
  show ?case
  proof (cases "(k, d) \<in> set snapshot")
    case True
    with Cons.IH [of "setQueryData cache j c"] Cons.prems entry show ?thesis
      by (simp add: restore_Cons)
  next
    case False
    with Cons.prems entry have jk: "j = k" "c = d" by auto
    from Cons.prems(1) entry jk have "\<forall>d'. (k, d') \<in> set snapshot \<longrightarrow> d' = JUndefined"
      by (auto simp: image_iff)
    from restore_untouched [OF this, of "setQueryData cache k d"] Cons.prems(3) entry jk
    show ?thesis
      by (simp add: restore_Cons map_of_setQueryData)
  qed
qed

subsection \<open>Rollback after a failed status update\<close>

lemma onMutate_returns:
  assumes "onMutate cache sd t = (cache', Inr ctx)"
  shows "\<exists>c1 c2 updated.
    update_lists sd t cache (getQueriesData cache [''appointments'', ''patient'']) = (c1, None) \<and>
    update_lists sd t c1 (getQueriesData cache [''appointments'', ''doctor'']) = (c2, None) \<and>
    ctx = \<lparr>previousPatientAppointments = getQueriesData cache [''appointments'', ''patient''],
           previousDoctorAppointments = getQueriesData cache [''appointments'', ''doctor''],
           previousAppointment = getQueryData c2 (appointmentDetails (appointment_id sd))\<rparr> \<and>
    cache' = (if truthy (getQueryData c2 (appointmentDetails (appointment_id sd)))
              then setQueryData c2 (appointmentDetails (appointment_id sd)) updated else c2)"
  using assms
  by (auto simp: onMutate_def Let_def split: prod.splits option.splits sum.splits if_splits)

text \<open>
  C1: when the cache has no two queries with the same key and \<^verbatim>\<open>onMutate\<close> has returned its
  context, \<^verbatim>\<open>onError\<close> with that context turns the cache that \<^verbatim>\<open>onMutate\<close> left into the
  cache from before \<^verbatim>\<open>onMutate\<close>: every patient list, every doctor list and the detail
  entry has its former data, and so has every other entry.
\<close>

theorem C1_rollback_restores_cache:
  assumes dist: "distinct (map fst cache)"
    and om: "onMutate cache sd t = (cache', Inr ctx)"
  shows "onError cache' sd (Some ctx) = cache"
proof -
  define P where "P = getQueriesData cache [''appointments'', ''patient'']"
  define D where "D = getQueriesData cache [''appointments'', ''doctor'']"
  define dk where "dk = appointmentDetails (appointment_id sd)"
  from onMutate_returns [OF om] obtain c1 c2 updated where
    u1: "update_lists sd t cache P = (c1, None)" and
    u2: "update_lists sd t c1 D = (c2, None)" and
    ctx: "ctx = \<lparr>previousPatientAppointments = P, previousDoctorAppointments = D,
                 previousAppointment = getQueryData c2 dk\<rparr>" and
    cache': "cache' = (if truthy (getQueryData c2 dk) then setQueryData c2 dk updated else c2)"
    unfolding P_def D_def dk_def by blast
  define ex where "ex = getQueryData c2 dk"
  define r1 where "r1 = restore cache' P"
  define r2 where "r2 = restore r1 D"
  define final where "final = (if truthy ex then setQueryData r2 dk ex else r2)"
  have result: "onError cache' sd (Some ctx) = final"
    by (simp add: onError_def ctx Let_def final_def r2_def r1_def ex_def dk_def)

  have P_sub: "set P \<subseteq> set cache" and D_sub: "set D \<subseteq> set cache"
    unfolding P_def D_def by (rule getQueriesData_subset)+
  have P_dist: "distinct (map fst P)" and D_dist: "distinct (map fst D)"
    unfolding P_def D_def using dist by (rule getQueriesData_distinct)+
  have in_cache: "map_of cache k = Some d" if "(k, d) \<in> set cache" for k d
    using dist that by simp
  have dk_P: "(dk, d) \<notin> set P" and dk_D: "(dk, d) \<notin> set D" for d
    unfolding P_def D_def dk_def
    using getQueriesData_matches detail_not_patient detail_not_doctor by blast+
  have P_D: "(k, d') \<notin> set D" if "(k, d) \<in> set P" for k d d'
    using that getQueriesData_matches patient_not_doctor unfolding P_def D_def by blast

  have c1: "c1 = fst (update_lists sd t cache P)" and c2: "c2 = fst (update_lists sd t c1 D)"
    using u1 u2 by simp_all
  have k1: "map fst c1 = map fst cache"
    unfolding c1 using P_sub by (intro update_lists_keys) auto
  have k2: "map fst c2 = map fst cache"
    unfolding c2 using D_sub k1 by (subst update_lists_keys) auto
  have v1: "map_of c1 k = map_of cache k" if "\<forall>d. (k, d) \<in> set P \<longrightarrow> \<not> truthy d" for k
    unfolding c1 using that by (rule update_lists_untouched)
  have v2: "map_of c2 k = map_of c1 k" if "\<forall>d. (k, d) \<in> set D \<longrightarrow> \<not> truthy d" for k
    unfolding c2 using that by (rule update_lists_untouched)
  have ex_cache: "map_of c2 dk = map_of cache dk"
    using v1 [of dk] v2 [of dk] dk_P dk_D by simp
  have ex_Some: "map_of c2 dk = Some ex" if "truthy ex"
    using that unfolding ex_def getQueryData_def by (cases "map_of c2 dk") auto
  have k': "map fst cache' = map fst cache"
  proof (cases "truthy ex")
    case True
    from ex_Some [OF True] have "dk \<in> set (map fst c2)"
      by (metis map_of_eq_None_iff option.distinct(1) set_map)
    with True k2 show ?thesis
      unfolding cache' ex_def [symmetric] by (simp add: keys_setQueryData)
  next
    case False
    with k2 show ?thesis
      unfolding cache' ex_def [symmetric] by simp
  qed
  have v': "map_of cache' k = map_of c2 k" if "k \<noteq> dk \<or> \<not> truthy ex" for k
    using that unfolding cache' ex_def [symmetric] by (auto simp: map_of_setQueryData)

  have kr1: "map fst r1 = map fst cache"
    unfolding r1_def using P_sub k' by (subst restore_keys) auto
  have kr2: "map fst r2 = map fst cache"
    unfolding r2_def using D_sub kr1 by (subst restore_keys) auto
  have keys: "map fst final = map fst cache"
  proof (cases "truthy ex")
    case True
    from ex_Some [OF True] ex_cache have "dk \<in> set (map fst cache)"
      by (metis map_of_eq_None_iff option.distinct(1) set_map)
    with True kr2 show ?thesis
      unfolding final_def by (simp add: keys_setQueryData)
  next
    case False
    with kr2 show ?thesis unfolding final_def by simp
  qed

  have same: "map_of final k = map_of cache k" for k
  proof (cases "k = dk")
    case True
    show ?thesis
    proof (cases "truthy ex")
      case t: True
      then have "ex \<noteq> JUndefined" by auto
      with t have "map_of final dk = Some ex"
        unfolding final_def by (simp add: map_of_setQueryData)
      with ex_Some [OF t] ex_cache True show ?thesis by simp
    next
      case f: False
      have "map_of r2 dk = map_of r1 dk"
        unfolding r2_def using dk_D by (intro restore_untouched) simp
      also have "\<dots> = map_of cache' dk"
        unfolding r1_def using dk_P by (intro restore_untouched) simp
      also have "\<dots> = map_of c2 dk"
        using f by (intro v') simp
      finally show ?thesis
        using f ex_cache True unfolding final_def by simp
    qed
  next
    case False
    then have fin: "map_of final k = map_of r2 k"
      unfolding final_def by (simp add: map_of_setQueryData)
    show ?thesis
    proof (cases "\<exists>d. (k, d) \<in> set D \<and> d \<noteq> JUndefined")
      case True
      then obtain d where d: "(k, d) \<in> set D" "d \<noteq> JUndefined" by blast
      from restore_written [OF D_dist d] have "map_of r2 k = Some d"
        unfolding r2_def .
      with fin in_cache [of k d] D_sub d(1) show ?thesis by auto
    next
      case noD: False
      then have "map_of r2 k = map_of r1 k"
        unfolding r2_def by (intro restore_untouched) blast
      with fin have fin1: "map_of final k = map_of r1 k" by simp
      from noD have D_falsy: "\<forall>d. (k, d) \<in> set D \<longrightarrow> \<not> truthy d" by auto
      show ?thesis
      proof (cases "\<exists>d. (k, d) \<in> set P \<and> d \<noteq> JUndefined")
        case True
        then obtain d where d: "(k, d) \<in> set P" "d \<noteq> JUndefined" by blast
        from restore_written [OF P_dist d] have "map_of r1 k = Some d"
          unfolding r1_def .
        with fin1 in_cache [of k d] P_sub d(1) show ?thesis by auto
      next
        case noP: False
        then have "map_of r1 k = map_of cache' k"
          unfolding r1_def by (intro restore_untouched) blast
        also have "\<dots> = map_of c2 k"
          using False by (intro v') simp
        also have "\<dots> = map_of c1 k"
          using D_falsy by (rule v2)
        also have "\<dots> = map_of cache k"
          using noP by (intro v1) auto
        finally show ?thesis using fin1 by simp
      qed
    qed
  qed
  from same_keys_same_values [OF dist keys] same have "final = cache"
    by blast
  with result show ?thesis by simp
qed

theorem C1_rollback_restores_cache_witness:
  "onMutate
     [([JStr ''appointments'', JStr ''patient'', JObj [(''page'', JNum (Fin 1))]],
       JObj [(''data'', JArr [JObj [(''id'', JStr ''1''), (''status'', JStr ''PENDING'')]]),
             (''pagination'', JObj [(''page'', JNum (Fin 1)), (''total'', JNum (Fin 1))])]),
      ([JStr ''appointments'', JStr ''doctor'', JObj [(''page'', JNum (Fin 1))]], JUndefined),
      ([JStr ''appointments'', JStr ''detail'', JStr ''1''],
       JObj [(''id'', JStr ''1''), (''status'', JStr ''PENDING'')])]
     \<lparr>appointment_id = ''1'', status = ''COMPLETE''\<rparr> ''2024-02-02T10:00:00.000Z'' =
   ([([JStr ''appointments'', JStr ''patient'', JObj [(''page'', JNum (Fin 1))]],
      JObj [(''data'', JArr [JObj [(''id'', JStr ''1''), (''status'', JStr ''COMPLETED''),
                                   (''updatedAt'', JStr ''2024-02-02T10:00:00.000Z'')]]),
            (''pagination'', JObj [(''page'', JNum (Fin 1)), (''total'', JNum (Fin 1))])]),
     ([JStr ''appointments'', JStr ''doctor'', JObj [(''page'', JNum (Fin 1))]], JUndefined),
     ([JStr ''appointments'', JStr ''detail'', JStr ''1''],
      JObj [(''id'', JStr ''1''), (''status'', JStr ''COMPLETED''),
            (''updatedAt'', JStr ''2024-02-02T10:00:00.000Z'')])],
    Inr \<lparr>previousPatientAppointments =
           [([JStr ''appointments'', JStr ''patient'', JObj [(''page'', JNum (Fin 1))]],
             JObj [(''data'', JArr [JObj [(''id'', JStr ''1''), (''status'', JStr ''PENDING'')]]),
                   (''pagination'', JObj [(''page'', JNum (Fin 1)), (''total'', JNum (Fin 1))])])],
         previousDoctorAppointments =
           [([JStr ''appointments'', JStr ''doctor'', JObj [(''page'', JNum (Fin 1))]], JUndefined)],
         previousAppointment = JObj [(''id'', JStr ''1''), (''status'', JStr ''PENDING'')]\<rparr>) \<and>
   onError
     [([JStr ''appointments'', JStr ''patient'', JObj [(''page'', JNum (Fin 1))]],
       JObj [(''data'', JArr [JObj [(''id'', JStr ''1''), (''status'', JStr ''COMPLETED''),
                                    (''updatedAt'', JStr ''2024-02-02T10:00:00.000Z'')]]),
             (''pagination'', JObj [(''page'', JNum (Fin 1)), (''total'', JNum (Fin 1))])]),
      ([JStr ''appointments'', JStr ''doctor'', JObj [(''page'', JNum (Fin 1))]], JUndefined),
      ([JStr ''appointments'', JStr ''detail'', JStr ''1''],
       JObj [(''id'', JStr ''1''), (''status'', JStr ''COMPLETED''),
             (''updatedAt'', JStr ''2024-02-02T10:00:00.000Z'')])]
     \<lparr>appointment_id = ''1'', status = ''COMPLETE''\<rparr>
     (Some \<lparr>previousPatientAppointments =
           [([JStr ''appointments'', JStr ''patient'', JObj [(''page'', JNum (Fin 1))]],
             JObj [(''data'', JArr [JObj [(''id'', JStr ''1''), (''status'', JStr ''PENDING'')]]),
                   (''pagination'', JObj [(''page'', JNum (Fin 1)), (''total'', JNum (Fin 1))])])],
         previousDoctorAppointments =
           [([JStr ''appointments'', JStr ''doctor'', JObj [(''page'', JNum (Fin 1))]], JUndefined)],
         previousAppointment = JObj [(''id'', JStr ''1''), (''status'', JStr ''PENDING'')]\<rparr>) =
   [([JStr ''appointments'', JStr ''patient'', JObj [(''page'', JNum (Fin 1))]],
     JObj [(''data'', JArr [JObj [(''id'', JStr ''1''), (''status'', JStr ''PENDING'')]]),
           (''pagination'', JObj [(''page'', JNum (Fin 1)), (''total'', JNum (Fin 1))])]),
    ([JStr ''appointments'', JStr ''doctor'', JObj [(''page'', JNum (Fin 1))]], JUndefined),
    ([JStr ''appointments'', JStr ''detail'', JStr ''1''],
     JObj [(''id'', JStr ''1''), (''status'', JStr ''PENDING'')])]"
proof -
  let ?pending = "JObj [(''id'', JStr ''1''), (''status'', JStr ''PENDING'')]"
  let ?completed = "JObj [(''id'', JStr ''1''), (''status'', JStr ''COMPLETED''),
      (''updatedAt'', JStr ''2024-02-02T10:00:00.000Z'')]"
  let ?pk = "[JStr ''appointments'', JStr ''patient'', JObj [(''page'', JNum (Fin 1))]]"
  let ?dk = "[JStr ''appointments'', JStr ''doctor'', JObj [(''page'', JNum (Fin 1))]]"
  let ?page = "\<lambda>a. JObj [(''data'', JArr [a]),
      (''pagination'', JObj [(''page'', JNum (Fin 1)), (''total'', JNum (Fin 1))])]"
  let ?cache = "[(?pk, ?page ?pending), (?dk, JUndefined),
      ([JStr ''appointments'', JStr ''detail'', JStr ''1''], ?pending)]"
  let ?cache' = "[(?pk, ?page ?completed), (?dk, JUndefined),
      ([JStr ''appointments'', JStr ''detail'', JStr ''1''], ?completed)]"
  let ?ctx = "\<lparr>previousPatientAppointments = [(?pk, ?page ?pending)],
      previousDoctorAppointments = [(?dk, JUndefined)],
      previousAppointment = ?pending\<rparr>"
  let ?sd = "\<lparr>appointment_id = ''1'', status = ''COMPLETE''\<rparr>"
  have h1: "distinct (map fst ?cache)"
    by simp
  have h2: "onMutate ?cache ?sd ''2024-02-02T10:00:00.000Z'' = (?cache', Inr ?ctx)"
    by code_simp
  from C1_rollback_restores_cache [OF h1 h2] h2 show ?thesis
    by simp
qed

text \<open>
  The rollback does not depend on what happened to the cache in between: whatever the
  cache holds when \<^verbatim>\<open>onError\<close> runs, every list entry that had data when \<^verbatim>\<open>onMutate\<close> took
  its snapshots has that data afterwards, and so has the detail entry when it was truthy.
\<close>

lemma rollback_restores_snapshot_entries:
  assumes dist: "distinct (map fst cache)"
    and om: "onMutate cache sd t = (cache', Inr ctx)"
  shows "(\<forall>k d. (k, d) \<in> set cache \<and> d \<noteq> JUndefined \<and>
            (partialMatchKey k [''appointments'', ''patient''] \<or>
             partialMatchKey k [''appointments'', ''doctor'']) \<longrightarrow>
            getQueryData (onError later sd (Some ctx)) k = d) \<and>
         (truthy (getQueryData cache (appointmentDetails (appointment_id sd))) \<longrightarrow>
            getQueryData (onError later sd (Some ctx)) (appointmentDetails (appointment_id sd)) =
            getQueryData cache (appointmentDetails (appointment_id sd)))"
proof -
  define P where "P = getQueriesData cache [''appointments'', ''patient'']"
  define D where "D = getQueriesData cache [''appointments'', ''doctor'']"
  define dk where "dk = appointmentDetails (appointment_id sd)"
  from onMutate_returns [OF om] obtain c1 c2 where
    u1: "update_lists sd t cache P = (c1, None)" and
    u2: "update_lists sd t c1 D = (c2, None)" and
    ctx: "ctx = \<lparr>previousPatientAppointments = P, previousDoctorAppointments = D,
                 previousAppointment = getQueryData c2 dk\<rparr>"
    unfolding P_def D_def dk_def by blast
  define ex where "ex = getQueryData c2 dk"
  define r1 where "r1 = restore later P"
  define r2 where "r2 = restore r1 D"
  define final where "final = (if truthy ex then setQueryData r2 dk ex else r2)"
  have result: "onError later sd (Some ctx) = final"
    by (simp add: onError_def ctx Let_def final_def r2_def r1_def ex_def dk_def)
  have P_dist: "distinct (map fst P)" and D_dist: "distinct (map fst D)"
    unfolding P_def D_def using dist by (rule getQueriesData_distinct)+
  have dk_P: "(dk, d) \<notin> set P" and dk_D: "(dk, d) \<notin> set D" for d
    unfolding P_def D_def dk_def
    using getQueriesData_matches detail_not_patient detail_not_doctor by blast+
  have "map_of c2 dk = map_of c1 dk"
    using u2 update_lists_untouched [of dk D sd t c1] dk_D by simp
  also have "\<dots> = map_of cache dk"
    using u1 update_lists_untouched [of dk P sd t cache] dk_P by simp
  finally have ex_cache: "ex = getQueryData cache dk"
    unfolding ex_def getQueryData_def by simp
  have lists: "getQueryData final k = d"
    if kd: "(k, d) \<in> set cache" "d \<noteq> JUndefined"
      and m: "partialMatchKey k [''appointments'', ''patient''] \<or>
              partialMatchKey k [''appointments'', ''doctor'']"
    for k d
  proof -
    from m have "k \<noteq> dk"
      unfolding dk_def using detail_not_patient detail_not_doctor by auto
    then have fin: "map_of final k = map_of r2 k"
      unfolding final_def by (simp add: map_of_setQueryData)
    from m show ?thesis
    proof
      assume p: "partialMatchKey k [''appointments'', ''patient'']"
      with kd have "(k, d) \<in> set P"
        unfolding P_def by (simp add: getQueriesData_complete)
      from restore_written [OF P_dist this kd(2)] have "map_of r1 k = Some d"
        unfolding r1_def .
      moreover from p have "\<forall>d'. (k, d') \<in> set D \<longrightarrow> d' = JUndefined"
        unfolding D_def using getQueriesData_matches patient_not_doctor by blast
      then have "map_of r2 k = map_of r1 k"
        unfolding r2_def by (rule restore_untouched)
      ultimately show ?thesis
        using fin by (simp add: getQueryData_def)
    next
      assume "partialMatchKey k [''appointments'', ''doctor'']"
      with kd have "(k, d) \<in> set D"
        unfolding D_def by (simp add: getQueriesData_complete)
      from restore_written [OF D_dist this kd(2)] have "map_of r2 k = Some d"
        unfolding r2_def .
      with fin show ?thesis
        by (simp add: getQueryData_def)
    qed
  qed
  have detail: "getQueryData final dk = getQueryData cache dk" if "truthy (getQueryData cache dk)"
  proof -
    from that ex_cache have "truthy ex" "ex \<noteq> JUndefined" by auto
    then show ?thesis
      unfolding final_def using ex_cache
      by (simp add: getQueryData_def map_of_setQueryData)
  qed
  from lists detail show ?thesis
    unfolding result dk_def by blast
qed

end
